theory Spec2Isabelle
  imports Complex_Main "HOL-Library.Multiset" "HOL-Library.Sublist"
begin

section \<open>Data model (types/furniture.ts, types/chat.ts)\<close>

text \<open>
  The \<open>number\<close> fields of a record hold the real value that the source writes; where the
  source computes with them, in \<open>calculateRoomCoverage\<close>, they are read as IEEE doubles
  and the arithmetic is the double arithmetic modelled below. The comparator of the sort
  uses only the sign of a difference of two scores. A \<open>string\<close> is a list of 8-bit
  characters, read as the UTF-16 code units below 256.

  Field names that would shadow a HOL constant or the usual variable names carry a prefix:
  \<open>id\<close> is \<open>id'\<close>, the coordinates \<open>x, y, z\<close> are \<open>pos_x, pos_y, pos_z\<close> and the colour
  channels \<open>r, g, b\<close> are \<open>col_r, col_g, col_b\<close>.
\<close>

record Position =
  pos_x :: real
  pos_y :: real
  pos_z :: real

record Dimensions =
  width :: real
  height :: real
  depth :: real

record Color =
  col_r :: real
  col_g :: real
  col_b :: real

datatype FurnitureCategory = Sofa | Table | Chair | Bed | Cabinet | Shelf | Lamp | Other

text \<open>The category is a string at run time; this is the string each variant stands for.\<close>

fun category_string :: "FurnitureCategory \<Rightarrow> string" where
  "category_string Sofa = ''sofa''"
| "category_string Table = ''table''"
| "category_string Chair = ''chair''"
| "category_string Bed = ''bed''"
| "category_string Cabinet = ''cabinet''"
| "category_string Shelf = ''shelf''"
| "category_string Lamp = ''lamp''"
| "category_string Other = ''other''"

text \<open>\<open>Omit<Furniture, 'visible'>\<close>: a record of a catalog.\<close>

record FurnitureRecord =
  id' :: string
  name :: string
  category :: FurnitureCategory
  position :: Position
  dimensions :: Dimensions
  color :: Color
  confidenceScore :: real
  description :: "string option"

text \<open>\<open>Furniture\<close>: a catalog record with the visibility flag.\<close>

record Furniture = FurnitureRecord +
  visible :: bool

datatype RoomStyle = Modern | Japanese | Minimalist | Scandinavian | Industrial | Traditional

text \<open>\<open>RAGRetrievalResult\<close>; the timestamp is the clock reading, in milliseconds.\<close>

record RAGRetrievalResult =
  furniture :: "Furniture list"
  timestamp :: int
  query :: "string option"

section \<open>Catalogs (lib/furnitureData.ts)\<close>

definition mk_record ::
  "string \<Rightarrow> string \<Rightarrow> FurnitureCategory \<Rightarrow> real \<times> real \<times> real \<Rightarrow> real \<times> real \<times> real \<Rightarrow>
   real \<times> real \<times> real \<Rightarrow> real \<Rightarrow> string \<Rightarrow> FurnitureRecord" where
  "mk_record i n c p d col s descr =
     (case p of (px, py, pz) \<Rightarrow> case d of (w, h, dp) \<Rightarrow> case col of (cr, cg, cb) \<Rightarrow>
      \<lparr>id' = i, name = n, category = c,
       position = \<lparr>pos_x = px, pos_y = py, pos_z = pz\<rparr>,
       dimensions = \<lparr>width = w, height = h, depth = dp\<rparr>,
       color = \<lparr>col_r = cr, col_g = cg, col_b = cb\<rparr>,
       confidenceScore = s, description = Some descr\<rparr>)"

definition MOCK_FURNITURE_DATABASE :: "FurnitureRecord list" where
  "MOCK_FURNITURE_DATABASE =
    [mk_record ''sofa-001'' ''Modern L-Shaped Sofa'' Sofa (-2, 0.4, 0) (2.5, 0.8, 1.5)
       (100, 100, 120) 0.95 ''Comfortable modern L-shaped sofa perfect for HDB living rooms'',
     mk_record ''table-001'' ''Coffee Table'' Table (-1, 0.2, 2) (1.2, 0.4, 0.6)
       (139, 90, 60) 0.92 ''Wooden coffee table with storage compartment'',
     mk_record ''table-002'' ''Dining Table'' Table (3, 0.4, -2) (1.6, 0.8, 0.9)
       (160, 120, 80) 0.88 ''4-seater dining table, space-saving design'',
     mk_record ''chair-001'' ''Dining Chair'' Chair (2.5, 0.45, -1.5) (0.5, 0.9, 0.5)
       (80, 80, 80) 0.90 ''Modern dining chair with ergonomic design'',
     mk_record ''chair-002'' ''Dining Chair'' Chair (3.5, 0.45, -1.5) (0.5, 0.9, 0.5)
       (80, 80, 80) 0.90 ''Modern dining chair with ergonomic design'',
     mk_record ''cabinet-001'' ''TV Console'' Cabinet (-4, 0.3, 3) (2.0, 0.6, 0.4)
       (70, 50, 40) 0.87 ''Modern TV console with shelving'',
     mk_record ''shelf-001'' ''Wall Shelf Unit'' Shelf (4, 1.0, 2) (1.0, 2.0, 0.3)
       (200, 200, 200) 0.85 ''Vertical storage shelf unit'',
     mk_record ''lamp-001'' ''Floor Lamp'' Lamp (-3, 0.8, -2) (0.3, 1.6, 0.3)
       (220, 180, 100) 0.83 ''Modern floor lamp with adjustable head'',
     mk_record ''sofa-002'' ''Accent Chair'' Sofa (0, 0.4, -3) (0.8, 0.9, 0.8)
       (180, 140, 100) 0.81 ''Stylish accent chair for additional seating'',
     mk_record ''table-003'' ''Side Table'' Table (0.5, 0.3, -3.5) (0.5, 0.6, 0.5)
       (100, 70, 50) 0.79 ''Compact side table for small spaces'']"

definition JAPANESE_FURNITURE_DATABASE :: "FurnitureRecord list" where
  "JAPANESE_FURNITURE_DATABASE =
    [mk_record ''jp-table-001'' ''Chabudai Low Table'' Table (0, 0.15, 0) (1.2, 0.3, 0.8)
       (139, 90, 60) 0.96 ''Traditional Japanese low dining table'',
     mk_record ''jp-sofa-001'' ''Futon Seating'' Sofa (-2.5, 0.2, -2) (1.8, 0.4, 0.9)
       (120, 110, 100) 0.94 ''Low-profile Japanese futon seating'',
     mk_record ''jp-cabinet-001'' ''Tansu Storage Cabinet'' Cabinet (-4, 0.4, 2) (1.5, 0.8, 0.4)
       (90, 60, 40) 0.92 ''Traditional Japanese chest of drawers'',
     mk_record ''jp-lamp-001'' ''Andon Floor Lamp'' Lamp (-3.5, 0.6, -3) (0.35, 1.2, 0.35)
       (240, 230, 210) 0.90 ''Traditional Japanese paper lantern lamp'',
     mk_record ''jp-shelf-001'' ''Shoji Screen Shelf'' Shelf (4, 0.9, 0) (1.2, 1.8, 0.25)
       (230, 220, 200) 0.88 ''Japanese-style display shelf with sliding doors'',
     mk_record ''jp-table-002'' ''Tea Ceremony Table'' Table (2, 0.12, -2.5) (0.8, 0.25, 0.6)
       (110, 75, 50) 0.86 ''Small low table for tea ceremonies'',
     mk_record ''jp-chair-001'' ''Zaisu Floor Chair'' Chair (0.8, 0.15, 0.5) (0.55, 0.3, 0.55)
       (100, 90, 80) 0.85 ''Japanese legless floor chair'',
     mk_record ''jp-chair-002'' ''Zaisu Floor Chair'' Chair (-0.8, 0.15, 0.5) (0.55, 0.3, 0.55)
       (100, 90, 80) 0.85 ''Japanese legless floor chair'',
     mk_record ''jp-cabinet-002'' ''Kotatsu Table'' Table (2.5, 0.2, 1.5) (1.0, 0.4, 1.0)
       (130, 85, 55) 0.83 ''Heated table with blanket (winter essential)'',
     mk_record ''jp-other-001'' ''Bonsai Display Stand'' Other (3.5, 0.35, -1) (0.5, 0.7, 0.4)
       (140, 100, 70) 0.80 ''Decorative stand for bonsai or ikebana'']"

section \<open>String operations used by the source\<close>

text \<open>
  \<open>String.prototype.toLowerCase\<close> on code units below 256: the letters A to Z and the
  Latin-1 capitals (192 to 222, without the multiplication sign 215) move up by 32, every
  other code unit stays.
\<close>

definition lower_char :: "char \<Rightarrow> char" where
  "lower_char c =
     (let n = of_char c :: nat in
      if (65 \<le> n \<and> n \<le> 90) \<or> (192 \<le> n \<and> n \<le> 222 \<and> n \<noteq> 215)
      then char_of (n + 32) else c)"

definition toLowerCase :: "string \<Rightarrow> string" where
  "toLowerCase s = map lower_char s"

text \<open>\<open>String.prototype.includes\<close>: the needle occurs at some position of the haystack.\<close>

fun starts_with :: "string \<Rightarrow> string \<Rightarrow> bool" where
  "starts_with hay [] = True"
| "starts_with [] (n # ns) = False"
| "starts_with (h # hs) (n # ns) = (h = n \<and> starts_with hs ns)"

fun includes_str :: "string \<Rightarrow> string \<Rightarrow> bool" where
  "includes_str [] needle = (needle = [])"
| "includes_str (h # hs) needle = (starts_with (h # hs) needle \<or> includes_str hs needle)"

section \<open>Style detector and catalog selector (lib/mockRAG.ts)\<close>

definition detectRoomStyle :: "string \<Rightarrow> RoomStyle" where
  "detectRoomStyle q =
     (let lowerQuery = toLowerCase q in
      if includes_str lowerQuery ''japanese'' \<or> includes_str lowerQuery ''japan'' \<or>
         includes_str lowerQuery ''zen'' \<or> includes_str lowerQuery ''tatami'' then Japanese
      else if includes_str lowerQuery ''minimalist'' \<or> includes_str lowerQuery ''minimal''
        then Minimalist
      else if includes_str lowerQuery ''scandinavian'' \<or> includes_str lowerQuery ''nordic''
        then Scandinavian
      else if includes_str lowerQuery ''industrial'' then Industrial
      else if includes_str lowerQuery ''traditional'' then Traditional
      else Modern)"

fun getFurnitureByStyle :: "RoomStyle \<Rightarrow> FurnitureRecord list" where
  "getFurnitureByStyle Japanese = JAPANESE_FURNITURE_DATABASE"
| "getFurnitureByStyle Modern = MOCK_FURNITURE_DATABASE"
| "getFurnitureByStyle Minimalist = MOCK_FURNITURE_DATABASE"
| "getFurnitureByStyle Scandinavian = MOCK_FURNITURE_DATABASE"
| "getFurnitureByStyle Industrial = MOCK_FURNITURE_DATABASE"
| "getFurnitureByStyle Traditional = MOCK_FURNITURE_DATABASE"

section \<open>Array operations used by the source\<close>

text \<open>
  \<open>Array.prototype.slice(0, end)\<close> for an integer \<open>end\<close>: a negative \<open>end\<close> counts from
  the end of the array, and the result never reaches past either end.
\<close>

definition slice0 :: "'a list \<Rightarrow> int \<Rightarrow> 'a list" where
  "slice0 xs e =
     (let len = int (length xs);
          final = (if e < 0 then max (len + e) 0 else min e len)
      in take (nat final) xs)"

text \<open>
  \<open>Array.prototype.sort(cmp)\<close> is stable (ECMAScript 2019): \<open>a\<close> stays in front of a later
  \<open>b\<close> unless \<open>cmp a b > 0\<close>. The engine's algorithm is not part of the repository; for a
  comparator that is a difference of keys the result is the same for every stable
  algorithm, and it is computed here by insertion from the right.
\<close>

fun insert_by :: "('a \<Rightarrow> 'a \<Rightarrow> real) \<Rightarrow> 'a \<Rightarrow> 'a list \<Rightarrow> 'a list" where
  "insert_by cmp a [] = [a]"
| "insert_by cmp a (b # bs) = (if cmp a b \<le> 0 then a # b # bs else b # insert_by cmp a bs)"

definition array_sort :: "('a \<Rightarrow> 'a \<Rightarrow> real) \<Rightarrow> 'a list \<Rightarrow> 'a list" where
  "array_sort cmp xs = foldr (insert_by cmp) xs []"

text \<open>
  \<open>Array.prototype.join(sep)\<close>: the loop of the language definition, which appends the
  separator in front of every element but the first.
\<close>

fun join_loop :: "string \<Rightarrow> bool \<Rightarrow> string list \<Rightarrow> string \<Rightarrow> string" where
  "join_loop sep first [] R = R"
| "join_loop sep first (e # es) R = join_loop sep False es ((if first then R else R @ sep) @ e)"

definition join :: "string list \<Rightarrow> string \<Rightarrow> string" where
  "join xs sep = join_loop sep True xs []"

section \<open>Retrieval (lib/mockRAG.ts)\<close>

text \<open>The object spread \<open>{...item, visible: v}\<close>.\<close>

definition spread_visible :: "FurnitureRecord \<Rightarrow> bool \<Rightarrow> Furniture" where
  "spread_visible item v =
     \<lparr>id' = id' item, name = name item, category = category item, position = position item,
      dimensions = dimensions item, color = color item,
      confidenceScore = confidenceScore item, description = description item, visible = v\<rparr>"

text \<open>The comparator \<open>(a, b) => b.confidenceScore - a.confidenceScore\<close>.\<close>

definition by_confidence :: "Furniture \<Rightarrow> Furniture \<Rightarrow> real" where
  "by_confidence a b = confidenceScore b - confidenceScore a"

text \<open>
  The simulated delay changes no value and is left out; \<open>now\<close> is what \<open>new Date()\<close>
  reads when the result is built.
\<close>

definition retrieveFurniture :: "int \<Rightarrow> string \<Rightarrow> int \<Rightarrow> RAGRetrievalResult" where
  "retrieveFurniture now q maxResults =
     (let style = detectRoomStyle q;
          furnitureDatabase = getFurnitureByStyle style;
          retrievedFurniture =
            array_sort by_confidence
              (map (\<lambda>item. spread_visible item True) (slice0 furnitureDatabase maxResults))
      in \<lparr>furniture = retrievedFurniture, timestamp = now, query = Some q\<rparr>)"

text \<open>The default parameters: an argument that is left out takes its default.\<close>

definition retrieveFurniture_call ::
  "int \<Rightarrow> string option \<Rightarrow> int option \<Rightarrow> RAGRetrievalResult" where
  "retrieveFurniture_call now q maxResults =
     retrieveFurniture now
       (case q of None \<Rightarrow> ''HDB living room furniture'' | Some s \<Rightarrow> s)
       (case maxResults of None \<Rightarrow> 10 | Some n \<Rightarrow> n)"

definition retrieveFurnitureByCategory :: "int \<Rightarrow> string list \<Rightarrow> RAGRetrievalResult" where
  "retrieveFurnitureByCategory now categories =
     (let retrievedFurniture =
            array_sort by_confidence
              (map (\<lambda>item. spread_visible item True)
                 (filter (\<lambda>item. category_string (category item) \<in> set categories)
                    MOCK_FURNITURE_DATABASE))
      in \<lparr>furniture = retrievedFurniture, timestamp = now,
          query = Some (''Categories: '' @ join categories '', '')\<rparr>)"

section \<open>Numbers (IEEE 754 binary64)\<close>

text \<open>
  The arithmetic of \<open>calculateRoomCoverage\<close> is the double arithmetic of the language: a
  \<open>number\<close> is a finite double, a negative zero, an infinity or \<open>NaN\<close>, and every
  operation returns the double nearest to the exact result, a tie going to the even
  significand. \<open>Finite x\<close> carries the exact value of a finite double other than the
  negative zero; \<open>Finite 0\<close> is the positive zero.
\<close>

datatype jsnum = Finite real | NegZero | PosInfinity | NegInfinity | NaN

text \<open>The nearest integer, a tie going to the even one.\<close>

definition round_half_even :: "real \<Rightarrow> int" where
  "round_half_even x =
     (let f = \<lfloor>x\<rfloor>; r = x - of_int f
      in if r < 1 / 2 then f else if 1 / 2 < r then f + 1 else if even f then f else f + 1)"

function exp_up :: "real \<Rightarrow> int" where
  "exp_up x = (if 2 \<le> x then exp_up (x / 2) + 1 else 0)"
  by pat_completeness auto
termination
proof (relation "measure (\<lambda>x. nat \<lfloor>x\<rfloor>)")
  show "wf (measure (\<lambda>x::real. nat \<lfloor>x\<rfloor>))" by simp
next
  fix x :: real
  assume "2 \<le> x"
  then have "\<lfloor>x / 2\<rfloor> < \<lfloor>x\<rfloor>" and "0 < \<lfloor>x\<rfloor>"
    by linarith+
  then show "(x / 2, x) \<in> measure (\<lambda>x. nat \<lfloor>x\<rfloor>)"
    by simp
qed

function exp_down :: "real \<Rightarrow> int" where
  "exp_down x = (if 0 < x \<and> x < 1 then exp_down (x * 2) - 1 else 0)"
  by pat_completeness auto
termination
proof (relation "measure (\<lambda>x. nat \<lfloor>1 / x\<rfloor>)")
  show "wf (measure (\<lambda>x::real. nat \<lfloor>1 / x\<rfloor>))" by simp
next
  fix x :: real
  assume a: "0 < x \<and> x < 1"
  have aux: "nat \<lfloor>y / 2\<rfloor> < nat \<lfloor>y\<rfloor>" if "1 < y" for y :: real
  proof -
    from that have "1 \<le> \<lfloor>y\<rfloor>" by (simp add: le_floor_iff)
    then have "\<lfloor>y / 2\<rfloor> < \<lfloor>y\<rfloor>" and "0 < \<lfloor>y\<rfloor>" by linarith+
    then show ?thesis by simp
  qed
  have p: "1 < 1 / x" using a by simp
  have q: "1 / (x * 2) = (1 / x) / 2" by simp
  show "(x * 2, x) \<in> measure (\<lambda>x. nat \<lfloor>1 / x\<rfloor>)"
    unfolding in_measure q by (rule aux [OF p])
qed

text \<open>
  The binary exponent of a positive real: \<open>2 powi (exponent x) \<le> x < 2 powi (exponent x + 1)\<close>.
\<close>

definition exponent :: "real \<Rightarrow> int" where
  "exponent x = (if 1 \<le> x then exp_up x else exp_down x)"

text \<open>
  The spacing of the doubles around a positive real: 52 binary places below its exponent,
  and \<open>2 powi (- 1074)\<close> in the subnormal range below \<open>2 powi (- 1022)\<close>.
\<close>

definition quantum :: "real \<Rightarrow> real" where
  "quantum x = (if x < 2 powi (- 1022) then 2 powi (- 1074) else 2 powi (exponent x - 52))"

definition round_magnitude :: "real \<Rightarrow> real" where
  "round_magnitude x = of_int (round_half_even (x / quantum x)) * quantum x"

definition inf_of :: "bool \<Rightarrow> jsnum" where
  "inf_of neg = (if neg then NegInfinity else PosInfinity)"

definition zero_of :: "bool \<Rightarrow> jsnum" where
  "zero_of neg = (if neg then NegZero else Finite 0)"

text \<open>
  The double nearest to a real. A magnitude that rounds to \<open>2 powi 1024\<close> or more
  overflows to an infinity; one that rounds to nothing underflows to a zero of its sign.
  It is also the value of a numeric literal.
\<close>

definition to_double :: "real \<Rightarrow> jsnum" where
  "to_double x =
     (if x = 0 then Finite 0
      else let m = round_magnitude \<bar>x\<bar>
           in if 2 powi 1024 \<le> m then inf_of (x < 0)
              else if m = 0 then zero_of (x < 0)
              else Finite (if x < 0 then - m else m))"

text \<open>Multiplication, division and addition of doubles, with their special cases.\<close>

definition is_zero :: "jsnum \<Rightarrow> bool" where
  "is_zero a = (a = Finite 0 \<or> a = NegZero)"

definition is_inf :: "jsnum \<Rightarrow> bool" where
  "is_inf a = (a = PosInfinity \<or> a = NegInfinity)"

fun negative :: "jsnum \<Rightarrow> bool" where
  "negative (Finite x) = (x < 0)"
| "negative NegZero = True"
| "negative PosInfinity = False"
| "negative NegInfinity = True"
| "negative NaN = False"

fun value_of :: "jsnum \<Rightarrow> real" where
  "value_of (Finite x) = x"
| "value_of NegZero = 0"
| "value_of PosInfinity = 0"
| "value_of NegInfinity = 0"
| "value_of NaN = 0"

definition js_mul :: "jsnum \<Rightarrow> jsnum \<Rightarrow> jsnum" where
  "js_mul a b =
     (if a = NaN \<or> b = NaN then NaN
      else if (is_inf a \<and> is_zero b) \<or> (is_zero a \<and> is_inf b) then NaN
      else if is_inf a \<or> is_inf b then inf_of (negative a \<noteq> negative b)
      else if is_zero a \<or> is_zero b then zero_of (negative a \<noteq> negative b)
      else to_double (value_of a * value_of b))"

definition js_div :: "jsnum \<Rightarrow> jsnum \<Rightarrow> jsnum" where
  "js_div a b =
     (if a = NaN \<or> b = NaN then NaN
      else if (is_inf a \<and> is_inf b) \<or> (is_zero a \<and> is_zero b) then NaN
      else if is_inf a then inf_of (negative a \<noteq> negative b)
      else if is_inf b then zero_of (negative a \<noteq> negative b)
      else if is_zero b then inf_of (negative a \<noteq> negative b)
      else if is_zero a then zero_of (negative a \<noteq> negative b)
      else to_double (value_of a / value_of b))"

definition js_add :: "jsnum \<Rightarrow> jsnum \<Rightarrow> jsnum" where
  "js_add a b =
     (if a = NaN \<or> b = NaN then NaN
      else if is_inf a then (if is_inf b \<and> a \<noteq> b then NaN else a)
      else if is_inf b then b
      else if is_zero a \<and> is_zero b then (if a = NegZero \<and> b = NegZero then NegZero else Finite 0)
      else if is_zero a then b
      else if is_zero b then a
      else to_double (value_of a + value_of b))"

text \<open>
  \<open>Math.round\<close>: the nearest integer, a tie going up; the result is exact, and it is the
  negative zero for an argument from \<open>- 1 / 2\<close> up to the negative zero.
\<close>

fun Math_round :: "jsnum \<Rightarrow> jsnum" where
  "Math_round (Finite x) = (if \<lfloor>x + 1 / 2\<rfloor> = 0 \<and> x < 0 then NegZero else Finite (of_int \<lfloor>x + 1 / 2\<rfloor>))"
| "Math_round NegZero = NegZero"
| "Math_round PosInfinity = PosInfinity"
| "Math_round NegInfinity = NegInfinity"
| "Math_round NaN = NaN"

section \<open>Room coverage (lib/mockRAG.ts)\<close>

text \<open>
  The dimensions of an item and of the room are given as reals and read as the doubles
  nearest to them, which changes nothing for a value that is a double already.
\<close>

record CoverageStats =
  totalFootprint :: jsnum
  coveragePercentage :: jsnum
  itemCount :: nat

definition footprint_sum :: "Furniture list \<Rightarrow> jsnum" where
  "footprint_sum visibleFurniture =
     foldl (\<lambda>sum item. js_add sum
              (js_mul (to_double (width (dimensions item))) (to_double (depth (dimensions item)))))
       (Finite 0) visibleFurniture"

definition calculateRoomCoverage :: "Furniture list \<Rightarrow> real \<Rightarrow> real \<Rightarrow> CoverageStats" where
  "calculateRoomCoverage fs roomWidth roomDepth =
     (let visibleFurniture = filter visible fs;
          total = footprint_sum visibleFurniture;
          roomArea = js_mul (to_double roomWidth) (to_double roomDepth);
          percentage = js_mul (js_div total roomArea) (Finite 100)
      in \<lparr>totalFootprint = js_div (Math_round (js_mul total (Finite 100))) (Finite 100),
          coveragePercentage = js_div (Math_round (js_mul percentage (Finite 10))) (Finite 10),
          itemCount = length visibleFurniture\<rparr>)"

section \<open>Notions of the specification\<close>

text \<open>
  The specification speaks of a query that contains one of a set of keywords, of a number
  rounded to some decimal places (in exact arithmetic) and of strings joined with a
  separator. These definitions follow its words; the theorems below compare them with the
  operations of the source.
\<close>

definition contains_any :: "string \<Rightarrow> string list \<Rightarrow> bool" where
  "contains_any s kws = (\<exists>kw \<in> set kws. sublist kw s)"

definition rounded_to :: "nat \<Rightarrow> real \<Rightarrow> real" where
  "rounded_to places a = of_int (round (a * 10 ^ places)) / 10 ^ places"

fun joined_with :: "string \<Rightarrow> string list \<Rightarrow> string" where
  "joined_with sep [] = []"
| "joined_with sep [e] = e"
| "joined_with sep (e # e' # es) = e @ sep @ joined_with sep (e' # es)"

text \<open>
  The one-decimal percentage of a room that a footprint covers, computed as the source
  computes it, and the values that are not numbers.
\<close>

definition percentage_of :: "jsnum \<Rightarrow> real \<Rightarrow> real \<Rightarrow> jsnum" where
  "percentage_of footprint roomWidth roomDepth =
     js_div (Math_round (js_mul (js_mul
       (js_div footprint (js_mul (to_double roomWidth) (to_double roomDepth)))
       (Finite 100)) (Finite 10))) (Finite 10)"


section \<open>An example input\<close>

text \<open>A piece of furniture of a given footprint and visibility, for concrete instances.\<close>

definition box :: "real \<Rightarrow> real \<Rightarrow> bool \<Rightarrow> Furniture" where
  "box w d v =
     \<lparr>id' = ''box-001'', name = ''Box'', category = Other,
      position = \<lparr>pos_x = 0, pos_y = 0, pos_z = 0\<rparr>,
      dimensions = \<lparr>width = w, height = 1, depth = d\<rparr>,
      color = \<lparr>col_r = 0, col_g = 0, col_b = 0\<rparr>,
      confidenceScore = 1, description = None, visible = v\<rparr>"

section \<open>The string operations are prefix and substring tests\<close>

lemma starts_with_iff: "starts_with hay needle \<longleftrightarrow> prefix needle hay"
  by (induction hay needle rule: starts_with.induct) auto

lemma includes_str_iff: "includes_str hay needle \<longleftrightarrow> sublist needle hay"
  by (induction hay) (auto simp: starts_with_iff sublist_Cons_right)

lemma contains_any_code:
  "contains_any s [] = False"
  "contains_any s (kw # kws) = (includes_str s kw \<or> contains_any s kws)"
  by (auto simp: contains_any_def includes_str_iff)

section \<open>Style detector\<close>

lemma detect_chain:
  "detectRoomStyle q =
     (let l = toLowerCase q in
      if contains_any l [''japanese'', ''japan'', ''zen'', ''tatami''] then Japanese
      else if contains_any l [''minimalist'', ''minimal''] then Minimalist
      else if contains_any l [''scandinavian'', ''nordic''] then Scandinavian
      else if contains_any l [''industrial''] then Industrial
      else if contains_any l [''traditional''] then Traditional
      else Modern)"
  unfolding detectRoomStyle_def Let_def contains_any_code by simp

lemma detect_empty: "detectRoomStyle [] = Modern"
  by (simp add: detectRoomStyle_def toLowerCase_def)

lemma lower_example:
  "toLowerCase ''A Minimalist ZEN room'' = ''a minimalist zen room''"
  "toLowerCase ''Cozy loft'' = ''cozy loft''"
  by code_simp+

text \<open>
  C2. For every query, \<open>detectRoomStyle\<close> returns one style, chosen by the first rule that
  matches the lower-cased query: a Japanese keyword, then a minimalist one, then a
  Scandinavian one, then "industrial", then "traditional", and "modern" when none matches.
  The empty query and a query without any keyword give "modern"; a query with both a
  Japanese and a minimalist keyword gives "japanese".
\<close>

theorem detectRoomStyle_priority:
  "detectRoomStyle q =
     (let l = toLowerCase q in
      if contains_any l [''japanese'', ''japan'', ''zen'', ''tatami''] then Japanese
      else if contains_any l [''minimalist'', ''minimal''] then Minimalist
      else if contains_any l [''scandinavian'', ''nordic''] then Scandinavian
      else if contains_any l [''industrial''] then Industrial
      else if contains_any l [''traditional''] then Traditional
      else Modern)
   \<and> detectRoomStyle [] = Modern
   \<and> (\<not> contains_any (toLowerCase q)
          [''japanese'', ''japan'', ''zen'', ''tatami'', ''minimalist'', ''minimal'',
           ''scandinavian'', ''nordic'', ''industrial'', ''traditional'']
        \<longrightarrow> detectRoomStyle q = Modern)
   \<and> (contains_any (toLowerCase q) [''japanese'', ''japan'', ''zen'', ''tatami''] \<and>
      contains_any (toLowerCase q) [''minimalist'', ''minimal'']
        \<longrightarrow> detectRoomStyle q = Japanese)"
proof -
  let ?l = "toLowerCase q"
  have n: "\<not> contains_any ?l
          [''japanese'', ''japan'', ''zen'', ''tatami'', ''minimalist'', ''minimal'',
           ''scandinavian'', ''nordic'', ''industrial'', ''traditional'']
        \<longrightarrow> detectRoomStyle q = Modern"
    by (simp add: detectRoomStyle_def contains_any_code)
  have p: "contains_any ?l [''japanese'', ''japan'', ''zen'', ''tatami''] \<and>
      contains_any ?l [''minimalist'', ''minimal''] \<longrightarrow> detectRoomStyle q = Japanese"
    by (simp add: detect_chain)
  from detect_chain [of q] detect_empty n p show ?thesis by blast
qed

theorem detectRoomStyle_priority_witness:
  "contains_any (toLowerCase ''A Minimalist ZEN room'')
     [''japanese'', ''japan'', ''zen'', ''tatami''] \<and>
   contains_any (toLowerCase ''A Minimalist ZEN room'') [''minimalist'', ''minimal''] \<and>
   detectRoomStyle ''A Minimalist ZEN room'' = Japanese \<and>
   \<not> contains_any (toLowerCase ''Cozy loft'')
          [''japanese'', ''japan'', ''zen'', ''tatami'', ''minimalist'', ''minimal'',
           ''scandinavian'', ''nordic'', ''industrial'', ''traditional''] \<and>
   detectRoomStyle ''Cozy loft'' = Modern"
  using detectRoomStyle_priority [of "''A Minimalist ZEN room''"]
    detectRoomStyle_priority [of "''Cozy loft''"]
  by (simp add: lower_example contains_any_code)

section \<open>Catalog selector\<close>

text \<open>
  C4. The catalog selector returns the Japanese catalog for the style "japanese" and one
  and the same default catalog for each of the five other styles.
\<close>

theorem getFurnitureByStyle_catalogs:
  "getFurnitureByStyle Japanese = JAPANESE_FURNITURE_DATABASE
   \<and> getFurnitureByStyle Modern = MOCK_FURNITURE_DATABASE
   \<and> getFurnitureByStyle Minimalist = MOCK_FURNITURE_DATABASE
   \<and> getFurnitureByStyle Scandinavian = MOCK_FURNITURE_DATABASE
   \<and> getFurnitureByStyle Industrial = MOCK_FURNITURE_DATABASE
   \<and> getFurnitureByStyle Traditional = MOCK_FURNITURE_DATABASE
   \<and> (\<forall>s. s \<noteq> Japanese \<longrightarrow> getFurnitureByStyle s = MOCK_FURNITURE_DATABASE)
   \<and> JAPANESE_FURNITURE_DATABASE \<noteq> MOCK_FURNITURE_DATABASE"
proof -
  have "\<forall>s. s \<noteq> Japanese \<longrightarrow> getFurnitureByStyle s = MOCK_FURNITURE_DATABASE"
  proof (intro allI impI)
    fix s assume "s \<noteq> Japanese"
    then show "getFurnitureByStyle s = MOCK_FURNITURE_DATABASE" by (cases s) simp_all
  qed
  moreover have "JAPANESE_FURNITURE_DATABASE \<noteq> MOCK_FURNITURE_DATABASE"
    by (simp add: JAPANESE_FURNITURE_DATABASE_def MOCK_FURNITURE_DATABASE_def mk_record_def)
  ultimately show ?thesis by simp
qed

theorem getFurnitureByStyle_catalogs_witness:
  "Scandinavian \<noteq> Japanese \<and> getFurnitureByStyle Scandinavian = MOCK_FURNITURE_DATABASE"
  using getFurnitureByStyle_catalogs by blast

section \<open>Sorting by the confidence comparator\<close>

text \<open>
  With the comparator of the source, insertion is the library's \<open>insort_key\<close> on the
  negated score, so the sort is the library's stable \<open>sort_key\<close>.
\<close>

lemma insert_by_confidence:
  "insert_by by_confidence a bs = insort_key (\<lambda>f. - confidenceScore f) a bs"
  by (induction bs) (auto simp: by_confidence_def)

lemma array_sort_by_confidence:
  "array_sort by_confidence xs = sort_key (\<lambda>f. - confidenceScore f) xs"
  by (induction xs) (auto simp: array_sort_def insert_by_confidence)

lemma mset_array_sort: "mset (array_sort by_confidence xs) = mset xs"
  by (simp add: array_sort_by_confidence)

lemma length_array_sort: "length (array_sort by_confidence xs) = length xs"
  by (simp add: array_sort_by_confidence)

lemma set_array_sort: "set (array_sort by_confidence xs) = set xs"
  by (simp add: array_sort_by_confidence)

lemma descending_array_sort:
  "sorted_wrt (\<lambda>a b. confidenceScore b \<le> confidenceScore a) (array_sort by_confidence xs)"
proof -
  have "sorted (map (\<lambda>f. - confidenceScore f) (sort_key (\<lambda>f. - confidenceScore f) xs))"
    by (rule sorted_sort_key)
  then show ?thesis
    by (simp add: array_sort_by_confidence sorted_map)
qed

lemma stable_array_sort:
  "filter (\<lambda>f. confidenceScore f = k) (array_sort by_confidence xs)
     = filter (\<lambda>f. confidenceScore f = k) xs"
proof -
  have "filter (\<lambda>f. - confidenceScore f = - k) (sort_key (\<lambda>f. - confidenceScore f) xs)
          = filter (\<lambda>f. - confidenceScore f = - k) xs"
    by (rule sort_key_stable)
  then show ?thesis
    by (simp add: array_sort_by_confidence)
qed

lemma array_sort_descending_id:
  assumes "sorted (map (\<lambda>f. - confidenceScore f) xs)"
  shows "array_sort by_confidence xs = xs"
  using assms by (simp add: array_sort_by_confidence sort_key_id_if_sorted)

section \<open>Retrieval by query\<close>

lemma truncate_spread: "FurnitureRecord.truncate (spread_visible item v) = item"
  by (simp add: spread_visible_def FurnitureRecord.truncate_def)

lemma confidence_truncate:
  "confidenceScore (FurnitureRecord.truncate f) = confidenceScore f"
  by (simp add: FurnitureRecord.truncate_def)

lemma truncate_sorted_spread:
  "map FurnitureRecord.truncate
     (array_sort by_confidence (map (\<lambda>item. spread_visible item v) xs))
     = sort_key (\<lambda>r. - confidenceScore r) xs"
proof -
  have ins: "map FurnitureRecord.truncate (insort_key (\<lambda>f. - confidenceScore f) a bs)
               = insort_key (\<lambda>r. - confidenceScore r) (FurnitureRecord.truncate a)
                   (map FurnitureRecord.truncate bs)" for a :: Furniture and bs
    by (induction bs) (simp_all add: confidence_truncate)
  show ?thesis
    unfolding array_sort_by_confidence
    by (induction xs) (simp_all add: ins truncate_spread)
qed

lemma slice0_positive: "0 < e \<Longrightarrow> slice0 xs e = take (nat e) xs"
  by (auto simp: slice0_def Let_def min_def)

lemma visible_spread: "visible (spread_visible item v) = v"
  by (simp add: spread_visible_def)

lemma confidence_spread: "confidenceScore (spread_visible item v) = confidenceScore item"
  by (simp add: spread_visible_def)

lemma name_spread: "name (spread_visible item v) = name item"
  by (simp add: spread_visible_def)

lemma id_spread: "id' (spread_visible item v) = id' item"
  by (simp add: spread_visible_def)

lemma length_MOCK: "length MOCK_FURNITURE_DATABASE = 10"
  by (simp add: MOCK_FURNITURE_DATABASE_def)

lemma length_JAPANESE: "length JAPANESE_FURNITURE_DATABASE = 10"
  by (simp add: JAPANESE_FURNITURE_DATABASE_def)

lemma mock_scores:
  "map confidenceScore MOCK_FURNITURE_DATABASE
     = [0.95, 0.92, 0.88, 0.90, 0.90, 0.87, 0.85, 0.83, 0.81, 0.79]"
  by (simp add: MOCK_FURNITURE_DATABASE_def mk_record_def)

lemma mock_ids:
  "map id' MOCK_FURNITURE_DATABASE
     = [''sofa-001'', ''table-001'', ''table-002'', ''chair-001'', ''chair-002'',
        ''cabinet-001'', ''shelf-001'', ''lamp-001'', ''sofa-002'', ''table-003'']"
  by (simp add: MOCK_FURNITURE_DATABASE_def mk_record_def)

text \<open>
  With the empty query and three results the prefix of the default catalog comes back,
  although the fourth record of the catalog scores higher than the third.
\<close>

lemma prefix_of_three:
  "map id' (furniture (retrieveFurniture now [] 3)) = [''sofa-001'', ''table-001'', ''table-002'']"
proof -
  let ?pre = "map (\<lambda>item. spread_visible item True) (take 3 MOCK_FURNITURE_DATABASE)"
  have "map (\<lambda>f. - confidenceScore f) ?pre
          = map uminus (take 3 (map confidenceScore MOCK_FURNITURE_DATABASE))"
    by (simp add: confidence_spread comp_def take_map)
  then have "sorted (map (\<lambda>f. - confidenceScore f) ?pre)"
    by (simp only: mock_scores) simp
  then have "array_sort by_confidence ?pre = ?pre"
    by (rule array_sort_descending_id)
  then have "furniture (retrieveFurniture now [] 3) = ?pre"
    by (simp add: retrieveFurniture_def detect_empty slice0_positive)
  then have "map id' (furniture (retrieveFurniture now [] 3))
               = take 3 (map id' MOCK_FURNITURE_DATABASE)"
    by (simp add: id_spread comp_def take_map)
  then show ?thesis
    by (simp only: mock_ids) simp
qed

text \<open>
  C1. For a positive \<open>maxResults\<close>, the furniture of \<open>retrieveFurniture\<close> is the first
  \<open>maxResults\<close> records of the selected catalog, each with \<open>visible = true\<close>, stably sorted
  by descending confidence. Stripped of the visibility flag (\<open>FurnitureRecord.truncate\<close>
  keeps every other field), the items are the records of that prefix: the same records
  with the same multiplicity, their scores never increase, and the records of equal score
  keep the order of the prefix; every item is visible. The length is the smaller of
  \<open>maxResults\<close> and the size of the catalog, so exactly \<open>maxResults\<close> when the catalog has
  that many records. It is the prefix that is sorted, not the catalog: for the empty query
  and three results the third record (0.88) is returned and the fourth (0.90) is not.
\<close>

theorem retrieveFurniture_prefix_then_sorted:
  assumes "0 < maxResults"
  shows "(let catalog = getFurnitureByStyle (detectRoomStyle q);
              pre = take (nat maxResults) catalog;
              res = furniture (retrieveFurniture now q maxResults);
              recs = map FurnitureRecord.truncate res
          in mset recs = mset pre
           \<and> sorted_wrt (\<lambda>a b. confidenceScore b \<le> confidenceScore a) recs
           \<and> (\<forall>k. filter (\<lambda>r. confidenceScore r = k) recs
                    = filter (\<lambda>r. confidenceScore r = k) pre)
           \<and> (\<forall>f \<in> set res. visible f)
           \<and> length res = min (nat maxResults) (length catalog)
           \<and> (maxResults \<le> int (length catalog) \<longrightarrow> int (length res) = maxResults)
           \<and> mset res = mset (map (\<lambda>item. spread_visible item True) pre)
           \<and> sorted_wrt (\<lambda>a b. confidenceScore b \<le> confidenceScore a) res
           \<and> (\<forall>k. filter (\<lambda>f. confidenceScore f = k) res
                    = filter (\<lambda>f. confidenceScore f = k)
                        (map (\<lambda>item. spread_visible item True) pre)))
         \<and> map id' (furniture (retrieveFurniture now [] 3))
             = [''sofa-001'', ''table-001'', ''table-002'']
         \<and> map confidenceScore MOCK_FURNITURE_DATABASE
             = [0.95, 0.92, 0.88, 0.90, 0.90, 0.87, 0.85, 0.83, 0.81, 0.79]"
proof -
  define catalog where "catalog = getFurnitureByStyle (detectRoomStyle q)"
  define pre where "pre = take (nat maxResults) catalog"
  define res where "res = furniture (retrieveFurniture now q maxResults)"
  define recs where "recs = map FurnitureRecord.truncate res"
  let ?vis = "map (\<lambda>item. spread_visible item True) pre"
  have r: "res = array_sort by_confidence ?vis"
    using assms by (simp add: res_def pre_def catalog_def retrieveFurniture_def slice0_positive)
  have k: "recs = sort_key (\<lambda>r. - confidenceScore r) pre"
    by (simp only: recs_def r truncate_sorted_spread)
  have 1: "mset recs = mset pre" by (simp add: k)
  have "sorted (map (\<lambda>r. - confidenceScore r) recs)"
    unfolding k by (rule sorted_sort_key)
  then have 2: "sorted_wrt (\<lambda>a b. confidenceScore b \<le> confidenceScore a) recs"
    by (simp add: sorted_map)
  have 3: "\<forall>k. filter (\<lambda>r. confidenceScore r = k) recs = filter (\<lambda>r. confidenceScore r = k) pre"
  proof
    fix c
    have "filter (\<lambda>r. - confidenceScore r = - c) (sort_key (\<lambda>r. - confidenceScore r) pre)
            = filter (\<lambda>r. - confidenceScore r = - c) pre"
      by (rule sort_key_stable)
    then show "filter (\<lambda>r. confidenceScore r = c) recs = filter (\<lambda>r. confidenceScore r = c) pre"
      by (simp add: k)
  qed
  have 4: "\<forall>f \<in> set res. visible f"
    by (auto simp: r set_array_sort visible_spread)
  have 5: "length res = min (nat maxResults) (length catalog)"
    by (simp add: r length_array_sort pre_def min.commute)
  have 6: "maxResults \<le> int (length catalog) \<longrightarrow> int (length res) = maxResults"
    using assms 5 by auto
  have 7: "mset res = mset ?vis" by (simp add: r mset_array_sort)
  have 8: "sorted_wrt (\<lambda>a b. confidenceScore b \<le> confidenceScore a) res"
    by (simp add: r descending_array_sort)
  have 9: "\<forall>k. filter (\<lambda>f. confidenceScore f = k) res = filter (\<lambda>f. confidenceScore f = k) ?vis"
    by (simp add: r stable_array_sort)
  from 1 2 3 4 5 6 7 8 9 prefix_of_three [of now] mock_scores show ?thesis
    unfolding Let_def catalog_def [symmetric] pre_def [symmetric] res_def [symmetric]
      recs_def [symmetric]
    by blast
qed

theorem retrieveFurniture_prefix_then_sorted_witness:
  "(0::int) < 3 \<and> length (furniture (retrieveFurniture 0 [] 3)) = 3
     \<and> list_all visible (furniture (retrieveFurniture 0 [] 3))
     \<and> mset (map FurnitureRecord.truncate (furniture (retrieveFurniture 0 [] 3)))
          = mset (take 3 MOCK_FURNITURE_DATABASE)"
proof -
  have pos: "(0::int) < 3" by simp
  have three: "nat 3 = 3" by simp
  note w = retrieveFurniture_prefix_then_sorted
      [OF pos, of "[]" 0, unfolded Let_def detect_empty getFurnitureByStyle.simps
      three, THEN conjunct1]
  have a: "mset (map FurnitureRecord.truncate (furniture (retrieveFurniture 0 [] 3)))
          = mset (take 3 MOCK_FURNITURE_DATABASE)"
    using w by (rule conjunct1)
  have b: "\<forall>f \<in> set (furniture (retrieveFurniture 0 [] 3)). visible f"
    using w by blast
  have c: "length (furniture (retrieveFurniture 0 [] 3)) = min 3 (length MOCK_FURNITURE_DATABASE)"
    using w by blast
  from a b c pos show ?thesis
    by (simp add: length_MOCK list_all_iff)
qed

section \<open>The Japanese living room scenario\<close>

lemma detect_scenario:
  "detectRoomStyle ''Generate a Japanese style living room'' = Japanese"
  by code_simp

lemma slice_japanese: "slice0 JAPANESE_FURNITURE_DATABASE 10 = JAPANESE_FURNITURE_DATABASE"
  by (simp add: slice0_def length_JAPANESE)

lemma japanese_scores:
  "map confidenceScore JAPANESE_FURNITURE_DATABASE
     = [0.96, 0.94, 0.92, 0.90, 0.88, 0.86, 0.85, 0.85, 0.83, 0.80]"
  by (simp add: JAPANESE_FURNITURE_DATABASE_def mk_record_def)

lemma japanese_first:
  "name (JAPANESE_FURNITURE_DATABASE ! 0) = ''Chabudai Low Table''
   \<and> confidenceScore (JAPANESE_FURNITURE_DATABASE ! 0) = 0.96"
  by (simp add: JAPANESE_FURNITURE_DATABASE_def mk_record_def)

lemma scenario_furniture:
  "furniture (retrieveFurniture now ''Generate a Japanese style living room'' 10)
     = map (\<lambda>item. spread_visible item True) JAPANESE_FURNITURE_DATABASE"
proof -
  have "map (\<lambda>f. - confidenceScore f)
          (map (\<lambda>item. spread_visible item True) JAPANESE_FURNITURE_DATABASE)
        = map uminus (map confidenceScore JAPANESE_FURNITURE_DATABASE)"
    by (simp add: confidence_spread comp_def)
  then have "sorted (map (\<lambda>f. - confidenceScore f)
          (map (\<lambda>item. spread_visible item True) JAPANESE_FURNITURE_DATABASE))"
    by (simp only: japanese_scores) simp
  then show ?thesis
    unfolding retrieveFurniture_def Let_def detect_scenario getFurnitureByStyle.simps
      slice_japanese
    by (simp add: array_sort_descending_id)
qed

text \<open>
  C7. For the query "Generate a Japanese style living room" and \<open>maxResults = 10\<close> the
  detected style is "japanese", the Japanese catalog has ten records, ten items come back,
  and the first of them is the "Chabudai Low Table" with confidence 0.96, the highest score
  of the result.
\<close>

theorem japanese_living_room_scenario:
  "detectRoomStyle ''Generate a Japanese style living room'' = Japanese
   \<and> length JAPANESE_FURNITURE_DATABASE = 10
   \<and> length (furniture (retrieveFurniture now ''Generate a Japanese style living room'' 10)) = 10
   \<and> name (furniture (retrieveFurniture now ''Generate a Japanese style living room'' 10) ! 0)
        = ''Chabudai Low Table''
   \<and> confidenceScore
        (furniture (retrieveFurniture now ''Generate a Japanese style living room'' 10) ! 0) = 0.96
   \<and> map confidenceScore
        (furniture (retrieveFurniture now ''Generate a Japanese style living room'' 10))
        = [0.96, 0.94, 0.92, 0.90, 0.88, 0.86, 0.85, 0.85, 0.83, 0.80]"
proof -
  let ?res = "furniture (retrieveFurniture now ''Generate a Japanese style living room'' 10)"
  have len: "length ?res = 10"
    by (simp add: scenario_furniture length_JAPANESE)
  have first: "?res ! 0 = spread_visible (JAPANESE_FURNITURE_DATABASE ! 0) True"
    by (simp add: scenario_furniture length_JAPANESE)
  have scores: "map confidenceScore ?res = map confidenceScore JAPANESE_FURNITURE_DATABASE"
    by (simp add: scenario_furniture confidence_spread comp_def)
  show ?thesis
    using detect_scenario length_JAPANESE len japanese_first
    by (simp only: first scores japanese_scores name_spread confidence_spread)
qed

section \<open>Retrieval by category\<close>

lemma matches_none:
  assumes "\<forall>r \<in> set MOCK_FURNITURE_DATABASE. category_string (category r) \<notin> set cats"
  shows "filter (\<lambda>item. category_string (category item) \<in> set cats) MOCK_FURNITURE_DATABASE = []"
  using assms by (simp add: filter_empty_conv)

lemma mock_categories:
  "map (\<lambda>r. category_string (category r)) MOCK_FURNITURE_DATABASE
     = [''sofa'', ''table'', ''table'', ''chair'', ''chair'', ''cabinet'', ''shelf'', ''lamp'',
        ''sofa'', ''table'']"
  by (simp add: MOCK_FURNITURE_DATABASE_def mk_record_def)

lemma mock_category_set:
  "(\<lambda>r. category_string (category r)) ` set MOCK_FURNITURE_DATABASE
     = {''sofa'', ''table'', ''chair'', ''cabinet'', ''shelf'', ''lamp''}"
proof -
  have "(\<lambda>r. category_string (category r)) ` set MOCK_FURNITURE_DATABASE
          = set (map (\<lambda>r. category_string (category r)) MOCK_FURNITURE_DATABASE)"
    by simp
  also have "\<dots> = {''sofa'', ''table'', ''chair'', ''cabinet'', ''shelf'', ''lamp''}"
    by (simp only: mock_categories) auto
  finally show ?thesis .
qed

lemma matches_sofa_table:
  "map id' (filter (\<lambda>r. category_string (category r) \<in> set [''sofa'', ''table''])
      MOCK_FURNITURE_DATABASE)
     = [''sofa-001'', ''table-001'', ''table-002'', ''sofa-002'', ''table-003'']"
  by (simp add: MOCK_FURNITURE_DATABASE_def mk_record_def)

text \<open>
  C5. \<open>retrieveFurnitureByCategory\<close> takes no query and consults no style: for every list
  of category names, its furniture stripped of the visibility flag consists of exactly the
  records of the default catalog whose category string is an element of the list (compared
  as strings, so case matters), each once and with all its fields, in non-increasing order
  of confidence with ties in catalog order; every item has \<open>visible = true\<close> and no
  matching record is left out.
\<close>

theorem retrieveFurnitureByCategory_all_matches:
  "(let matches = filter (\<lambda>r. category_string (category r) \<in> set cats) MOCK_FURNITURE_DATABASE;
        res = furniture (retrieveFurnitureByCategory now cats);
        recs = map FurnitureRecord.truncate res
    in mset recs = mset matches
     \<and> set recs = {r \<in> set MOCK_FURNITURE_DATABASE. category_string (category r) \<in> set cats}
     \<and> sorted_wrt (\<lambda>a b. confidenceScore b \<le> confidenceScore a) recs
     \<and> (\<forall>k. filter (\<lambda>r. confidenceScore r = k) recs
              = filter (\<lambda>r. confidenceScore r = k) matches)
     \<and> (\<forall>f \<in> set res. visible f)
     \<and> length res = length matches
     \<and> mset res = mset (map (\<lambda>r. spread_visible r True) matches)
     \<and> sorted_wrt (\<lambda>a b. confidenceScore b \<le> confidenceScore a) res
     \<and> (\<forall>r \<in> set MOCK_FURNITURE_DATABASE.
           category_string (category r) \<in> set cats \<longrightarrow> spread_visible r True \<in> set res)
     \<and> (\<forall>f \<in> set res. \<exists>r \<in> set MOCK_FURNITURE_DATABASE.
           f = spread_visible r True \<and> category_string (category r) \<in> set cats))"
proof -
  define matches where
    "matches = filter (\<lambda>r. category_string (category r) \<in> set cats) MOCK_FURNITURE_DATABASE"
  define res where "res = furniture (retrieveFurnitureByCategory now cats)"
  define recs where "recs = map FurnitureRecord.truncate res"
  let ?vis = "map (\<lambda>r. spread_visible r True) matches"
  have r: "res = array_sort by_confidence ?vis"
    by (simp add: res_def matches_def retrieveFurnitureByCategory_def)
  have k: "recs = sort_key (\<lambda>r. - confidenceScore r) matches"
    by (simp only: recs_def r truncate_sorted_spread)
  have 1: "mset recs = mset matches" by (simp add: k)
  have 2: "set recs = {r \<in> set MOCK_FURNITURE_DATABASE. category_string (category r) \<in> set cats}"
    by (simp add: k matches_def)
  have "sorted (map (\<lambda>r. - confidenceScore r) recs)"
    unfolding k by (rule sorted_sort_key)
  then have 3: "sorted_wrt (\<lambda>a b. confidenceScore b \<le> confidenceScore a) recs"
    by (simp add: sorted_map)
  have 4: "\<forall>k. filter (\<lambda>r. confidenceScore r = k) recs
              = filter (\<lambda>r. confidenceScore r = k) matches"
  proof
    fix c
    have "filter (\<lambda>r. - confidenceScore r = - c) (sort_key (\<lambda>r. - confidenceScore r) matches)
            = filter (\<lambda>r. - confidenceScore r = - c) matches"
      by (rule sort_key_stable)
    then show "filter (\<lambda>r. confidenceScore r = c) recs
                 = filter (\<lambda>r. confidenceScore r = c) matches"
      by (simp add: k)
  qed
  have s: "set res = (\<lambda>r. spread_visible r True) ` set matches"
    by (simp add: r set_array_sort)
  have 5: "\<forall>f \<in> set res. visible f"
    by (auto simp: s visible_spread)
  have 6: "length res = length matches"
    by (simp add: r length_array_sort)
  have 7: "mset res = mset ?vis"
    by (simp only: r mset_array_sort)
  have 8: "sorted_wrt (\<lambda>a b. confidenceScore b \<le> confidenceScore a) res"
    by (simp only: r descending_array_sort)
  have 9: "\<forall>r \<in> set MOCK_FURNITURE_DATABASE.
           category_string (category r) \<in> set cats \<longrightarrow> spread_visible r True \<in> set res"
    by (auto simp: s matches_def)
  have 10: "\<forall>f \<in> set res. \<exists>r \<in> set MOCK_FURNITURE_DATABASE.
           f = spread_visible r True \<and> category_string (category r) \<in> set cats"
    by (auto simp: s matches_def)
  from 1 2 3 4 5 6 7 8 9 10 show ?thesis
    unfolding Let_def matches_def [symmetric] res_def [symmetric] recs_def [symmetric]
    by blast
qed

theorem retrieveFurnitureByCategory_all_matches_witness:
  "length (furniture (retrieveFurnitureByCategory 0 [''sofa'', ''table''])) = 5
   \<and> list_all visible (furniture (retrieveFurnitureByCategory 0 [''sofa'', ''table'']))
   \<and> mset (map id' (map FurnitureRecord.truncate
        (furniture (retrieveFurnitureByCategory 0 [''sofa'', ''table'']))))
      = mset [''sofa-001'', ''table-001'', ''table-002'', ''sofa-002'', ''table-003'']"
proof -
  let ?res = "furniture (retrieveFurnitureByCategory 0 [''sofa'', ''table''])"
  let ?matches = "filter (\<lambda>r. category_string (category r) \<in> set [''sofa'', ''table''])
      MOCK_FURNITURE_DATABASE"
  note w = retrieveFurnitureByCategory_all_matches [of "[''sofa'', ''table'']" 0, unfolded Let_def]
  have len: "length ?matches = 5"
    using arg_cong [OF matches_sofa_table, of length] by simp
  have a: "mset (map FurnitureRecord.truncate ?res) = mset ?matches"
    using w by (rule conjunct1)
  have b: "\<forall>f \<in> set ?res. visible f"
    using w by blast
  have c: "length ?res = length ?matches"
    using w by blast
  have "mset (map id' (map FurnitureRecord.truncate ?res)) = mset (map id' ?matches)"
    by (simp only: mset_map a [unfolded mset_map])
  then have d: "mset (map id' (map FurnitureRecord.truncate ?res))
      = mset [''sofa-001'', ''table-001'', ''table-002'', ''sofa-002'', ''table-003'']"
    by (simp only: matches_sofa_table)
  from b c d len show ?thesis
    by (simp add: list_all_iff)
qed

text \<open>
  C6. When no record of the default catalog has a category in the list, the result of
  \<open>retrieveFurnitureByCategory\<close> is an ordinary result with an empty furniture sequence.
\<close>

theorem retrieveFurnitureByCategory_no_match_empty:
  assumes "\<forall>r \<in> set MOCK_FURNITURE_DATABASE. category_string (category r) \<notin> set cats"
  shows "retrieveFurnitureByCategory now cats
           = \<lparr>furniture = [], timestamp = now,
               query = Some (''Categories: '' @ join cats '', '')\<rparr>"
  using matches_none [OF assms]
  by (simp add: retrieveFurnitureByCategory_def array_sort_def)

theorem retrieveFurnitureByCategory_no_match_empty_witness:
  "list_all (\<lambda>r. category_string (category r) \<notin> set [''Sofa'', ''couch'', ''bed''])
     MOCK_FURNITURE_DATABASE
   \<and> furniture (retrieveFurnitureByCategory 0 [''Sofa'', ''couch'', ''bed'']) = []"
proof -
  have h: "\<forall>r \<in> set MOCK_FURNITURE_DATABASE.
      category_string (category r) \<notin> set [''Sofa'', ''couch'', ''bed'']"
  proof
    fix r assume "r \<in> set MOCK_FURNITURE_DATABASE"
    then have "category_string (category r)
                 \<in> {''sofa'', ''table'', ''chair'', ''cabinet'', ''shelf'', ''lamp''}"
      using mock_category_set by blast
    then show "category_string (category r) \<notin> set [''Sofa'', ''couch'', ''bed'']"
      by auto
  qed
  show ?thesis
    using h retrieveFurnitureByCategory_no_match_empty [OF h, of 0]
    by (simp add: list_all_iff)
qed

section \<open>The query text of a category retrieval\<close>

lemma join_loop_joined:
  "join_loop sep first es R =
     (if es = [] then R else (if first then R else R @ sep) @ joined_with sep es)"
proof (induction es arbitrary: first R)
  case Nil
  then show ?case by simp
next
  case (Cons e es)
  let ?X = "(if first then R else R @ sep) @ e"
  have "join_loop sep first (e # es) R = join_loop sep False es ?X"
    by simp
  also have "\<dots> = (if es = [] then ?X else (?X @ sep) @ joined_with sep es)"
    by (simp only: Cons.IH [of False ?X] if_False)
  also have "\<dots> = (if first then R else R @ sep) @ joined_with sep (e # es)"
    by (cases es) simp_all
  finally show ?case by simp
qed

lemma join_joined: "join xs sep = joined_with sep xs"
  by (simp add: join_def join_loop_joined)

text \<open>
  C9. The query of the result of \<open>retrieveFurnitureByCategory\<close> is "Categories: " followed
  by the category names joined with ", ", for example "Categories: sofa, table"; it is
  built from the list, there is no query argument to echo.
\<close>

theorem retrieveFurnitureByCategory_query_text:
  "query (retrieveFurnitureByCategory now cats) = Some (''Categories: '' @ joined_with '', '' cats)
   \<and> query (retrieveFurnitureByCategory now [''sofa'', ''table'']) = Some ''Categories: sofa, table''
   \<and> query (retrieveFurnitureByCategory now []) = Some ''Categories: ''"
  by (simp add: retrieveFurnitureByCategory_def join_joined)

section \<open>Rounding to the nearest double\<close>

text \<open>
  The exponent search is characterised by the binade it finds, and the rounding is
  evaluated from a binade and the neighbouring integer of the scaled value.
\<close>

declare exp_up.simps [simp del] exp_down.simps [simp del]

lemma two_powi_Suc: "(2::real) powi (e + 1) = 2 * 2 powi e"
  by (simp add: power_int_add)

lemma two_powi_pred: "(2::real) powi (e - 1) = 2 powi e / 2"
  by (simp add: power_int_diff)

lemma exp_up_bounds:
  "1 \<le> x \<Longrightarrow> 2 powi (exp_up x) \<le> x \<and> x < 2 powi (exp_up x + 1)"
proof (induction x rule: exp_up.induct)
  case (1 x)
  show ?case
  proof (cases "2 \<le> x")
    case True
    then have "1 \<le> x / 2" by simp
    with 1 True have ih: "2 powi (exp_up (x / 2)) \<le> x / 2 \<and> x / 2 < 2 powi (exp_up (x / 2) + 1)"
      by blast
    have e: "exp_up x = exp_up (x / 2) + 1"
      using True by (subst exp_up.simps) simp
    from ih show ?thesis
      unfolding e two_powi_Suc by simp
  next
    case False
    then have e: "exp_up x = 0"
      by (subst exp_up.simps) simp
    from False 1(2) show ?thesis
      unfolding e by simp
  qed
qed

lemma exp_down_bounds:
  "0 < x \<Longrightarrow> x < 1 \<Longrightarrow> 2 powi (exp_down x) \<le> x \<and> x < 2 powi (exp_down x + 1)"
proof (induction x rule: exp_down.induct)
  case (1 x)
  have e: "exp_down x = exp_down (x * 2) - 1"
    using 1(2,3) by (subst exp_down.simps) simp
  show ?case
  proof (cases "x * 2 < 1")
    case True
    with 1 have ih: "2 powi (exp_down (x * 2)) \<le> x * 2 \<and> x * 2 < 2 powi (exp_down (x * 2) + 1)"
      by simp
    then show ?thesis
      unfolding e by (simp add: two_powi_pred two_powi_Suc)
  next
    case False
    then have "exp_down (x * 2) = 0"
      by (subst exp_down.simps) simp
    with False 1(2,3) show ?thesis
      unfolding e by simp
  qed
qed

lemma exponent_bounds:
  assumes "0 < x"
  shows "2 powi (exponent x) \<le> x \<and> x < 2 powi (exponent x + 1)"
  using assms exp_up_bounds [of x] exp_down_bounds [of x]
  by (cases "1 \<le> x") (simp_all add: exponent_def)

lemma binade_unique:
  assumes "2 powi a \<le> (x::real)" "x < 2 powi (a + 1)" "2 powi b \<le> x" "x < 2 powi (b + 1)"
  shows "a = b"
proof (rule ccontr)
  assume "a \<noteq> b"
  then consider "a + 1 \<le> b" | "b + 1 \<le> a" by linarith
  then show False
  proof cases
    case 1
    then have "(2::real) powi (a + 1) \<le> 2 powi b"
      by (intro power_int_increasing) simp_all
    with assms show False by linarith
  next
    case 2
    then have "(2::real) powi (b + 1) \<le> 2 powi a"
      by (intro power_int_increasing) simp_all
    with assms show False by linarith
  qed
qed

lemma exponent_eq:
  assumes "2 powi e \<le> x" "x < 2 powi (e + 1)"
  shows "exponent x = e"
proof -
  have "0 < (2::real) powi e" by simp
  with assms have "0 < x" by linarith
  from exponent_bounds [OF this] assms show ?thesis
    using binade_unique by blast
qed

lemma round_half_even_int: "round_half_even (of_int n) = n"
  by (simp add: round_half_even_def)

lemma round_half_even_ge: "of_int n \<le> x \<Longrightarrow> n \<le> round_half_even x"
proof -
  assume "of_int n \<le> x"
  then have "n \<le> \<lfloor>x\<rfloor>" by (simp add: le_floor_iff)
  then show ?thesis
    by (auto simp: round_half_even_def Let_def)
qed

lemma quantum_normal:
  assumes "2 powi e \<le> x" "x < 2 powi (e + 1)" "- 1022 \<le> e"
  shows "quantum x = 2 powi (e - 52)"
proof -
  have "(2::real) powi (- 1022) \<le> 2 powi e"
    using assms(3) by (intro power_int_increasing) simp_all
  with assms(1) have "\<not> x < 2 powi (- 1022)" by linarith
  then show ?thesis
    by (simp add: quantum_def exponent_eq [OF assms(1,2)])
qed

lemma to_double_normal:
  assumes "2 powi e \<le> x" "x < 2 powi (e + 1)" "- 1022 \<le> e"
    and "m = of_int (round_half_even (x / 2 powi (e - 52))) * 2 powi (e - 52)"
  shows "to_double x = (if 2 powi 1024 \<le> m then PosInfinity else Finite m)"
proof -
  have p: "0 < (2::real) powi e" by simp
  with assms(1) have x: "0 < x" by linarith
  have q: "quantum x = 2 powi (e - 52)"
    using assms(1-3) by (rule quantum_normal)
  have "(2::real) powi 52 = 2 powi e / 2 powi (e - 52)"
    by (simp add: power_int_diff)
  also have "\<dots> \<le> x / 2 powi (e - 52)"
    using assms(1) by (simp add: divide_right_mono)
  finally have "of_int (2 ^ 52) \<le> x / 2 powi (e - 52)" by simp
  then have "2 ^ 52 \<le> round_half_even (x / 2 powi (e - 52))"
    by (rule round_half_even_ge)
  moreover have "(0::int) < 2 ^ 52" by simp
  ultimately have "0 < round_half_even (x / 2 powi (e - 52))"
    by (rule less_le_trans [rotated])
  then have "0 < m" by (simp add: assms(4))
  moreover have "round_magnitude \<bar>x\<bar> = m"
    using x by (simp add: round_magnitude_def q assms(4))
  ultimately show ?thesis
    using x by (simp add: to_double_def inf_of_def)
qed


lemma to_double_power:
  assumes "- 1022 \<le> k" "k \<le> 1023"
  shows "to_double (2 powi k) = Finite (2 powi k)"
proof -
  have d: "(2::real) powi k / 2 powi (k - 52) = of_int (2 ^ 52)"
    by (simp add: power_int_diff [symmetric])
  have m: "(2::real) powi k = of_int (round_half_even (2 powi k / 2 powi (k - 52))) * 2 powi (k - 52)"
    unfolding d round_half_even_int by (simp add: power_int_diff)
  have lt: "(2::real) powi k < 2 powi (k + 1)"
    by (intro power_int_strict_increasing) simp_all
  have "(2::real) powi k < 2 powi 1024"
    using assms(2) by (intro power_int_strict_increasing) simp_all
  then show ?thesis
    using to_double_normal [OF order_refl lt assms(1) m] by simp
qed

lemma round_half_even_eval:
  "round_half_even x = n" if "of_int n - 1 / 2 < x" "x < of_int n + 1 / 2" for x :: real
proof -
  from that have "\<lfloor>x\<rfloor> = n \<or> \<lfloor>x\<rfloor> = n - 1" by linarith
  then show ?thesis
  proof
    assume f: "\<lfloor>x\<rfloor> = n"
    with that have "x - of_int \<lfloor>x\<rfloor> < 1 / 2" by simp
    then show ?thesis by (simp add: round_half_even_def Let_def f)
  next
    assume f: "\<lfloor>x\<rfloor> = n - 1"
    with that have "1 / 2 < x - of_int \<lfloor>x\<rfloor>" by simp
    then show ?thesis by (simp add: round_half_even_def Let_def f)
  qed
qed

lemma to_double_eval:
  assumes "2 powi e \<le> x" "x < 2 powi (e + 1)" "- 1022 \<le> e" "e \<le> 1022"
    and "of_int n - 1 / 2 < x * 2 powi (52 - e)" "x * 2 powi (52 - e) < of_int n + 1 / 2"
  shows "to_double x = Finite (of_int n * 2 powi (e - 52))"
proof -
  have s: "x / 2 powi (e - 52) = x * 2 powi (52 - e)"
    by (simp add: power_int_diff)
  have r: "round_half_even (x / 2 powi (e - 52)) = n"
    unfolding s using assms(5,6) by (rule round_half_even_eval)
  have "x * 2 powi (52 - e) < 2 powi (e + 1) * 2 powi (52 - e)"
    using assms(2) by (simp add: mult_strict_right_mono)
  also have "\<dots> = 2 ^ 53"
    by (simp add: power_int_add [symmetric])
  finally have "of_int n - 1 / 2 < (2 ^ 53 :: real)"
    using assms(5) by linarith
  then have "of_int n < of_int (2 ^ 53 + 1) - (1 / 2 :: real)" by simp
  then have "of_int n < (of_int (2 ^ 53 + 1) :: real)" by linarith
  then have "n < 2 ^ 53 + 1" by (simp only: of_int_less_iff)
  then have "n \<le> 2 ^ 53" by simp
  then have "(of_int n :: real) \<le> of_int (2 ^ 53)" by (simp only: of_int_le_iff)
  then have "of_int n * 2 powi (e - 52) \<le> (of_int (2 ^ 53) :: real) * 2 powi (e - 52)"
    by (rule mult_right_mono) simp
  also have "\<dots> = 2 powi (e + 1)"
    by (simp add: power_int_diff power_int_add)
  also have "\<dots> \<le> 2 powi 1023"
    using assms(4) by (intro power_int_increasing) simp_all
  also have "\<dots> < (2::real) powi 1024"
    by (intro power_int_strict_increasing) simp_all
  finally have "\<not> (2::real) powi 1024 \<le> of_int n * 2 powi (e - 52)"
    by (simp only: not_le)
  with to_double_normal [OF assms(1-3), of "of_int n * 2 powi (e - 52)"] r
  show ?thesis by simp
qed

lemma round_half_even_le: "x \<le> of_int n \<Longrightarrow> round_half_even x \<le> n"
proof -
  assume a: "x \<le> of_int n"
  show ?thesis
  proof (cases "x = of_int n")
    case True
    then show ?thesis by (simp add: round_half_even_int)
  next
    case False
    with a have "x < of_int n" by simp
    then have "\<lfloor>x\<rfloor> < n" by (simp add: floor_less_iff)
    then show ?thesis
      by (auto simp: round_half_even_def Let_def)
  qed
qed

lemma to_double_between:
  assumes "2 powi a \<le> x" "x \<le> 2 powi b" "- 1022 \<le> a" "b \<le> 1023"
  shows "\<exists>y. to_double x = Finite y \<and> 2 powi a \<le> y \<and> y \<le> 2 powi b"
proof -
  have pa: "0 < (2::real) powi a" by simp
  with assms(1) have x: "0 < x" by linarith
  define e where "e = exponent x"
  have lo: "2 powi e \<le> x" and hi: "x < 2 powi (e + 1)"
    using exponent_bounds [OF x] by (simp_all add: e_def)
  have ae: "a \<le> e"
  proof (rule ccontr)
    assume "\<not> a \<le> e"
    then have "e + 1 \<le> a" by simp
    then have "(2::real) powi (e + 1) \<le> 2 powi a"
      by (intro power_int_increasing) simp_all
    with hi assms(1) show False by linarith
  qed
  have eb: "e \<le> b"
  proof (rule ccontr)
    assume "\<not> e \<le> b"
    then have "b + 1 \<le> e" by simp
    then have "(2::real) powi (b + 1) \<le> 2 powi e"
      by (intro power_int_increasing) simp_all
    moreover have "(2::real) powi b < 2 powi (b + 1)"
      by (intro power_int_strict_increasing) simp_all
    ultimately show False using lo assms(2) by linarith
  qed
  show ?thesis
  proof (cases "e = b")
    case True
    with lo assms(2) have "x = 2 powi b" by simp
    moreover have "- 1022 \<le> b" using ae assms(3) True by simp
    ultimately have "to_double x = Finite (2 powi b)"
      using to_double_power [OF _ assms(4)] by simp
    moreover have "(2::real) powi a \<le> 2 powi b"
      using ae True by (intro power_int_increasing) simp_all
    ultimately show ?thesis by simp
  next
    case False
    with eb have e1: "e + 1 \<le> b" by simp
    define q :: real where "q = 2 powi (e - 52)"
    define m where "m = of_int (round_half_even (x / q)) * q"
    have q: "0 < q" by (simp add: q_def)
    have e_lo: "- 1022 \<le> e" using ae assms(3) by simp
    have "(2::real) powi 52 = 2 powi e / q"
      by (simp add: q_def power_int_diff)
    also have "\<dots> \<le> x / q"
      using lo q by (simp add: divide_right_mono)
    finally have "of_int (2 ^ 52) \<le> x / q" by simp
    then have "2 ^ 52 \<le> round_half_even (x / q)"
      by (rule round_half_even_ge)
    then have "(of_int (2 ^ 52) :: real) \<le> of_int (round_half_even (x / q))"
      by (simp only: of_int_le_iff)
    then have "of_int (2 ^ 52) * q \<le> m"
      unfolding m_def using q by (simp only: mult_le_cancel_right_pos)
    moreover have "of_int (2 ^ 52) * q = 2 powi e"
      by (simp add: q_def power_int_diff)
    moreover have "(2::real) powi a \<le> 2 powi e"
      using ae by (intro power_int_increasing) simp_all
    ultimately have m_lo: "2 powi a \<le> m" by linarith
    have "x / q < 2 powi (e + 1) / q"
      using hi q by (simp add: divide_strict_right_mono)
    also have "\<dots> = of_int (2 ^ 53)"
      by (simp add: q_def power_int_diff [symmetric])
    finally have "x / q \<le> of_int (2 ^ 53)" by simp
    then have "round_half_even (x / q) \<le> 2 ^ 53"
      by (rule round_half_even_le)
    then have "(of_int (round_half_even (x / q)) :: real) \<le> of_int (2 ^ 53)"
      by (simp only: of_int_le_iff)
    then have "m \<le> of_int (2 ^ 53) * q"
      unfolding m_def using q by (simp only: mult_le_cancel_right_pos)
    moreover have "of_int (2 ^ 53) * q = 2 powi (e + 1)"
      by (simp add: q_def power_int_diff power_int_add)
    moreover have "(2::real) powi (e + 1) \<le> 2 powi b"
      using e1 by (intro power_int_increasing) simp_all
    ultimately have m_hi: "m \<le> 2 powi b" by linarith
    have "(2::real) powi b \<le> 2 powi 1023"
      using assms(4) by (intro power_int_increasing) simp_all
    moreover have "(2::real) powi 1023 < 2 powi 1024"
      by (intro power_int_strict_increasing) simp_all
    ultimately have "\<not> (2::real) powi 1024 \<le> m"
      using m_hi by linarith
    with to_double_normal [OF lo hi e_lo, of m] have "to_double x = Finite m"
      by (simp add: m_def q_def)
    with m_lo m_hi show ?thesis by blast
  qed
qed

section \<open>The operations on finite doubles, zeros, infinities and NaN\<close>

lemma js_mul_finite:
  "a \<noteq> 0 \<Longrightarrow> b \<noteq> 0 \<Longrightarrow> js_mul (Finite a) (Finite b) = to_double (a * b)"
  by (simp add: js_mul_def is_zero_def is_inf_def)

lemma js_div_finite:
  "a \<noteq> 0 \<Longrightarrow> b \<noteq> 0 \<Longrightarrow> js_div (Finite a) (Finite b) = to_double (a / b)"
  by (simp add: js_div_def is_zero_def is_inf_def)

lemma js_add_finite:
  "a \<noteq> 0 \<Longrightarrow> b \<noteq> 0 \<Longrightarrow> js_add (Finite a) (Finite b) = to_double (a + b)"
  by (simp add: js_add_def is_zero_def is_inf_def)

lemma js_add_zero_left: "js_add (Finite 0) (Finite b) = Finite b"
  by (simp add: js_add_def is_zero_def is_inf_def)

lemma js_zero_mul: "0 \<le> b \<Longrightarrow> js_mul (Finite 0) (Finite b) = Finite 0"
  by (simp add: js_mul_def is_zero_def is_inf_def zero_of_def)

lemma js_zero_div: "0 < b \<Longrightarrow> js_div (Finite 0) (Finite b) = Finite 0"
  by (simp add: js_div_def is_zero_def is_inf_def zero_of_def)

lemma Math_round_nonneg: "0 \<le> p \<Longrightarrow> Math_round (Finite p) = Finite (of_int (round p))"
  by (simp add: round_def)

lemma js_round_places:
  assumes "0 \<le> p" "0 < c"
  shows "js_div (Math_round (Finite p)) (Finite c) = to_double (of_int (round p) / c)"
proof (cases "round p = 0")
  case True
  have "js_div (Finite (of_int (round p))) (Finite c) = Finite 0"
    using assms(2) by (simp only: True of_int_0 js_zero_div)
  moreover have "to_double (of_int (round p) / c) = Finite 0"
    by (simp add: True to_double_def)
  ultimately show ?thesis
    by (simp only: Math_round_nonneg [OF assms(1)])
next
  case False
  then have "(of_int (round p) :: real) \<noteq> 0" by simp
  moreover have "c \<noteq> 0" using assms(2) by simp
  ultimately have "js_div (Finite (of_int (round p))) (Finite c) = to_double (of_int (round p) / c)"
    by (rule js_div_finite)
  then show ?thesis
    by (simp only: Math_round_nonneg [OF assms(1)])
qed








section \<open>Concrete roundings\<close>

text \<open>Each value below was obtained by the rule \<open>to_double_eval\<close>.\<close>

lemma double_1: "to_double 1 = Finite 1"
proof -
  have "to_double 1 = Finite (of_int 4503599627370496 * 2 powi (0 - 52))"
    by (rule to_double_eval) simp_all
  then show ?thesis by simp
qed

lemma double_2: "to_double 2 = Finite 2"
proof -
  have "to_double 2 = Finite (of_int 4503599627370496 * 2 powi (1 - 52))"
    by (rule to_double_eval) simp_all
  then show ?thesis by simp
qed

lemma double_8: "to_double 8 = Finite 8"
proof -
  have "to_double 8 = Finite (of_int 4503599627370496 * 2 powi (3 - 52))"
    by (rule to_double_eval) simp_all
  then show ?thesis by simp
qed

lemma double_10: "to_double 10 = Finite 10"
proof -
  have "to_double 10 = Finite (of_int 5629499534213120 * 2 powi (3 - 52))"
    by (rule to_double_eval) simp_all
  then show ?thesis by simp
qed

lemma double_23: "to_double 23 = Finite 23"
proof -
  have "to_double 23 = Finite (of_int 6473924464345088 * 2 powi (4 - 52))"
    by (rule to_double_eval) simp_all
  then show ?thesis by simp
qed

lemma double_41: "to_double 41 = Finite 41"
proof -
  have "to_double 41 = Finite (of_int 5770237022568448 * 2 powi (5 - 52))"
    by (rule to_double_eval) simp_all
  then show ?thesis by simp
qed

lemma double_28_7: "to_double 28.7 = Finite (8078331831595827 / 281474976710656)"
proof -
  have "to_double 28.7 = Finite (of_int 8078331831595827 * 2 powi (4 - 52))"
    by (rule to_double_eval) simp_all
  then show ?thesis by simp
qed

lemma double_28_8: "to_double 28.8 = Finite (8106479329266893 / 281474976710656)"
proof -
  have "to_double 28.8 = Finite (of_int 8106479329266893 * 2 powi (4 - 52))"
    by (rule to_double_eval) simp_all
  then show ?thesis by simp
qed

lemma double_51_2: "to_double 51.2 = Finite (3602879701896397 / 70368744177664)"
proof -
  have "to_double 51.2 = Finite (of_int 7205759403792794 * 2 powi (5 - 52))"
    by (rule to_double_eval) simp_all
  then show ?thesis by simp
qed

lemma double_51_3: "to_double 51.3 = Finite (3609916576314163 / 70368744177664)"
proof -
  have "to_double 51.3 = Finite (of_int 7219833152628326 * 2 powi (5 - 52))"
    by (rule to_double_eval) simp_all
  then show ?thesis by simp
qed

lemma double_0_4: "to_double 0.4 = Finite (3602879701896397 / 9007199254740992)"
proof -
  have "to_double 0.4 = Finite (of_int 7205759403792794 * 2 powi (- 2 - 52))"
    by (rule to_double_eval) simp_all
  then show ?thesis by simp
qed

lemma double_256th: "to_double (1 / 256) = Finite (1 / 256)"
proof -
  have "to_double (1 / 256) = Finite (of_int 4503599627370496 * 2 powi (- 8 - 52))"
    by (rule to_double_eval) simp_all
  then show ?thesis by simp
qed

lemma box23_product: "js_mul (Finite 23) (Finite 1) = Finite 23"
proof -
  have "to_double (23 * 1) = Finite (of_int 6473924464345088 * 2 powi (4 - 52))"
    by (rule to_double_eval) simp_all
  then show ?thesis by (simp add: js_mul_finite)
qed

lemma box23_area: "js_mul (Finite 10) (Finite 8) = Finite 80"
proof -
  have "to_double (10 * 8) = Finite (of_int 5629499534213120 * 2 powi (6 - 52))"
    by (rule to_double_eval) simp_all
  then show ?thesis by (simp add: js_mul_finite)
qed

lemma box23_quotient: "js_div (Finite 23) (Finite 80) = Finite (2589569785738035 / 9007199254740992)"
proof -
  have "to_double (23 / 80) = Finite (of_int 5179139571476070 * 2 powi (- 2 - 52))"
    by (rule to_double_eval) simp_all
  then show ?thesis by (simp add: js_div_finite)
qed

lemma box23_percent: "js_mul (Finite (2589569785738035 / 9007199254740992)) (Finite 100) = Finite (8092405580431359 / 281474976710656)"
proof -
  have "to_double ((2589569785738035 / 9007199254740992) * 100) = Finite (of_int 8092405580431359 * 2 powi (4 - 52))"
    by (rule to_double_eval) simp_all
  then show ?thesis by (simp add: js_mul_finite)
qed

lemma box23_scaled: "js_mul (Finite (8092405580431359 / 281474976710656)) (Finite 10) = Finite (5057753487769599 / 17592186044416)"
proof -
  have "to_double ((8092405580431359 / 281474976710656) * 10) = Finite (of_int 5057753487769599 * 2 powi (8 - 52))"
    by (rule to_double_eval) simp_all
  then show ?thesis by (simp add: js_mul_finite)
qed

lemma box23_rounded: "Math_round (Finite (5057753487769599 / 17592186044416)) = Finite 287"
  by simp

lemma box23_result: "js_div (Finite 287) (Finite 10) = Finite (8078331831595827 / 281474976710656)"
proof -
  have "to_double (287 / 10) = Finite (of_int 8078331831595827 * 2 powi (4 - 52))"
    by (rule to_double_eval) simp_all
  then show ?thesis by (simp add: js_div_finite)
qed

lemma box41_product: "js_mul (Finite 41) (Finite 1) = Finite 41"
proof -
  have "to_double (41 * 1) = Finite (of_int 5770237022568448 * 2 powi (5 - 52))"
    by (rule to_double_eval) simp_all
  then show ?thesis by (simp add: js_mul_finite)
qed

lemma box41_quotient: "js_div (Finite 41) (Finite 80) = Finite (2308094809027379 / 4503599627370496)"
proof -
  have "to_double (41 / 80) = Finite (of_int 4616189618054758 * 2 powi (- 1 - 52))"
    by (rule to_double_eval) simp_all
  then show ?thesis by (simp add: js_div_finite)
qed

lemma box41_percent: "js_mul (Finite (2308094809027379 / 4503599627370496)) (Finite 100) = Finite (7212796278210559 / 140737488355328)"
proof -
  have "to_double ((2308094809027379 / 4503599627370496) * 100) = Finite (of_int 7212796278210559 * 2 powi (5 - 52))"
    by (rule to_double_eval) simp_all
  then show ?thesis by (simp add: js_mul_finite)
qed

lemma box41_scaled: "js_mul (Finite (7212796278210559 / 140737488355328)) (Finite 10) = Finite (4507997673881599 / 8796093022208)"
proof -
  have "to_double ((7212796278210559 / 140737488355328) * 10) = Finite (of_int 4507997673881599 * 2 powi (9 - 52))"
    by (rule to_double_eval) simp_all
  then show ?thesis by (simp add: js_mul_finite)
qed

lemma box41_rounded: "Math_round (Finite (4507997673881599 / 8796093022208)) = Finite 512"
  by simp

lemma box41_result: "js_div (Finite 512) (Finite 10) = Finite (3602879701896397 / 70368744177664)"
proof -
  have "to_double (512 / 10) = Finite (of_int 7205759403792794 * 2 powi (5 - 52))"
    by (rule to_double_eval) simp_all
  then show ?thesis by (simp add: js_div_finite)
qed

lemma box2_product: "js_mul (Finite 2) (Finite 1) = Finite 2"
proof -
  have "to_double (2 * 1) = Finite (of_int 4503599627370496 * 2 powi (1 - 52))"
    by (rule to_double_eval) simp_all
  then show ?thesis by (simp add: js_mul_finite)
qed

lemma box2_quotient: "js_div (Finite 2) (Finite 80) = Finite (3602879701896397 / 144115188075855872)"
proof -
  have "to_double (2 / 80) = Finite (of_int 7205759403792794 * 2 powi (- 6 - 52))"
    by (rule to_double_eval) simp_all
  then show ?thesis by (simp add: js_div_finite)
qed

lemma box2_percent: "js_mul (Finite (3602879701896397 / 144115188075855872)) (Finite 100) = Finite (5 / 2)"
proof -
  have "to_double ((3602879701896397 / 144115188075855872) * 100) = Finite (of_int 5629499534213120 * 2 powi (1 - 52))"
    by (rule to_double_eval) simp_all
  then show ?thesis by (simp add: js_mul_finite)
qed

lemma box2_scaled: "js_mul (Finite (5 / 2)) (Finite 10) = Finite 25"
proof -
  have "to_double ((5 / 2) * 10) = Finite (of_int 7036874417766400 * 2 powi (4 - 52))"
    by (rule to_double_eval) simp_all
  then show ?thesis by (simp add: js_mul_finite)
qed

lemma box2_result: "js_div (Finite 25) (Finite 10) = Finite (5 / 2)"
proof -
  have "to_double (25 / 10) = Finite (of_int 5629499534213120 * 2 powi (1 - 52))"
    by (rule to_double_eval) simp_all
  then show ?thesis by (simp add: js_div_finite)
qed

lemma box2_total_scaled: "js_mul (Finite 2) (Finite 100) = Finite 200"
proof -
  have "to_double (2 * 100) = Finite (of_int 7036874417766400 * 2 powi (7 - 52))"
    by (rule to_double_eval) simp_all
  then show ?thesis by (simp add: js_mul_finite)
qed

lemma tiny_product: "js_mul (Finite (1 / 256)) (Finite 1) = Finite (1 / 256)"
proof -
  have "to_double ((1 / 256) * 1) = Finite (of_int 4503599627370496 * 2 powi (- 8 - 52))"
    by (rule to_double_eval) simp_all
  then show ?thesis by (simp add: js_mul_finite)
qed

lemma tiny_area: "js_mul (Finite 1) (Finite 1) = Finite 1"
proof -
  have "to_double (1 * 1) = Finite (of_int 4503599627370496 * 2 powi (0 - 52))"
    by (rule to_double_eval) simp_all
  then show ?thesis by (simp add: js_mul_finite)
qed

lemma tiny_quotient: "js_div (Finite (1 / 256)) (Finite 1) = Finite (1 / 256)"
proof -
  have "to_double ((1 / 256) / 1) = Finite (of_int 4503599627370496 * 2 powi (- 8 - 52))"
    by (rule to_double_eval) simp_all
  then show ?thesis by (simp add: js_div_finite)
qed

lemma tiny_percent: "js_mul (Finite (1 / 256)) (Finite 100) = Finite (25 / 64)"
proof -
  have "to_double ((1 / 256) * 100) = Finite (of_int 7036874417766400 * 2 powi (- 2 - 52))"
    by (rule to_double_eval) simp_all
  then show ?thesis by (simp add: js_mul_finite)
qed

lemma tiny_scaled: "js_mul (Finite (25 / 64)) (Finite 10) = Finite (125 / 32)"
proof -
  have "to_double ((25 / 64) * 10) = Finite (of_int 8796093022208000 * 2 powi (1 - 52))"
    by (rule to_double_eval) simp_all
  then show ?thesis by (simp add: js_mul_finite)
qed

lemma tiny_rounded: "Math_round (Finite (125 / 32)) = Finite 4"
  by simp

lemma tiny_result: "js_div (Finite 4) (Finite 10) = Finite (3602879701896397 / 9007199254740992)"
proof -
  have "to_double (4 / 10) = Finite (of_int 7205759403792794 * 2 powi (- 2 - 52))"
    by (rule to_double_eval) simp_all
  then show ?thesis by (simp add: js_div_finite)
qed

lemma tiny_total_scaled: "js_mul (Finite (1 / 256)) (Finite 100) = Finite (25 / 64)"
proof -
  have "to_double ((1 / 256) * 100) = Finite (of_int 7036874417766400 * 2 powi (- 2 - 52))"
    by (rule to_double_eval) simp_all
  then show ?thesis by (simp add: js_mul_finite)
qed

lemma tiny_total_rounded: "Math_round (Finite (25 / 64)) = Finite 0"
  by simp

section \<open>Room coverage\<close>

lemma box_fields:
  "visible (box w d v) = v"
  "width (dimensions (box w d v)) = w"
  "depth (dimensions (box w d v)) = d"
  by (simp_all add: box_def)

lemma visible_examples:
  "filter visible [box w d True] = [box w d True]"
  "filter visible [box w d False] = []"
  "filter visible [box w d True, box w' d' False] = [box w d True]"
  by (simp_all add: box_fields)

lemma footprint_sum_Nil: "footprint_sum [] = Finite 0"
  by (simp add: footprint_sum_def)

lemma footprint_sum_snoc:
  "footprint_sum (xs @ [f])
     = js_add (footprint_sum xs)
         (js_mul (to_double (width (dimensions f))) (to_double (depth (dimensions f))))"
  by (simp add: footprint_sum_def)

lemma footprint_sum_box:
  "footprint_sum [box w d v] = js_add (Finite 0) (js_mul (to_double w) (to_double d))"
  by (simp add: footprint_sum_def box_fields)

lemma coverage_fields:
  "totalFootprint (calculateRoomCoverage fs roomWidth roomDepth)
     = js_div (Math_round (js_mul (footprint_sum (filter visible fs)) (Finite 100))) (Finite 100)"
  "coveragePercentage (calculateRoomCoverage fs roomWidth roomDepth)
     = js_div (Math_round (js_mul (js_mul
         (js_div (footprint_sum (filter visible fs))
            (js_mul (to_double roomWidth) (to_double roomDepth))) (Finite 100)) (Finite 10)))
         (Finite 10)"
  "itemCount (calculateRoomCoverage fs roomWidth roomDepth) = length (filter visible fs)"
  by (simp_all add: calculateRoomCoverage_def Let_def)

lemma hidden_ignored:
  "calculateRoomCoverage (filter visible fs) roomWidth roomDepth
     = calculateRoomCoverage fs roomWidth roomDepth"
  by (simp add: calculateRoomCoverage_def)

lemma all_hidden_zero:
  assumes "\<forall>f \<in> set fs. \<not> visible f"
    and "js_mul (to_double roomWidth) (to_double roomDepth) = Finite a" and "0 < a"
  shows "calculateRoomCoverage fs roomWidth roomDepth
           = \<lparr>totalFootprint = Finite 0, coveragePercentage = Finite 0, itemCount = 0\<rparr>"
proof -
  from assms(1) have e: "filter visible fs = []"
    by (simp add: filter_empty_conv)
  have z: "Math_round (Finite 0) = Finite 0" by simp
  show ?thesis
    unfolding calculateRoomCoverage_def Let_def e footprint_sum_Nil assms(2)
    using assms(3) by (simp add: js_zero_div js_zero_mul)
qed

lemma area_in_range:
  assumes "2 powi (- 500) \<le> roomWidth" "roomWidth \<le> 2 powi 500"
    and "2 powi (- 500) \<le> roomDepth" "roomDepth \<le> 2 powi 500"
  shows "\<exists>a. js_mul (to_double roomWidth) (to_double roomDepth) = Finite a \<and> 0 < a"
proof -
  obtain w where w: "to_double roomWidth = Finite w" "2 powi (- 500) \<le> w" "w \<le> 2 powi 500"
    using to_double_between [OF assms(1,2)] by auto
  obtain d where d: "to_double roomDepth = Finite d" "2 powi (- 500) \<le> d" "d \<le> 2 powi 500"
    using to_double_between [OF assms(3,4)] by auto
  have p: "0 < (2::real) powi (- 500)" by simp
  have w0: "0 < w" using w(2) p by linarith
  have d0: "0 < d" using d(2) p by linarith
  have "(2::real) powi (- 500) * 2 powi (- 500) \<le> w * d"
    using w(2) d(2) w0 by (intro mult_mono) simp_all
  moreover have "(2::real) powi (- 500) * 2 powi (- 500) = 2 powi (- 1000)"
    by (simp add: power_int_add [symmetric])
  ultimately have lo: "2 powi (- 1000) \<le> w * d" by simp
  have "w * d \<le> 2 powi 500 * 2 powi 500"
    using w(3) d(3) w0 d0 by (intro mult_mono) simp_all
  moreover have "(2::real) powi 500 * 2 powi 500 = 2 powi 1000"
    by (simp add: power_int_add [symmetric])
  ultimately have hi: "w * d \<le> 2 powi 1000" by simp
  obtain a where a: "to_double (w * d) = Finite a" "2 powi (- 1000) \<le> a"
    using to_double_between [OF lo hi] by auto
  have "0 < (2::real) powi (- 1000)" by simp
  with a(2) have "0 < a" by linarith
  moreover have "js_mul (to_double roomWidth) (to_double roomDepth) = Finite a"
    using w0 d0 by (simp add: w(1) d(1) js_mul_finite a(1))
  ultimately show ?thesis by blast
qed



lemma box23_coverage:
  "coveragePercentage (calculateRoomCoverage [box 23 1 True] 10 8)
     = Finite (8078331831595827 / 281474976710656)"
  by (simp only: coverage_fields visible_examples footprint_sum_box double_23 double_1
      double_10 double_8 box23_product js_add_zero_left box23_area box23_quotient box23_percent
      box23_scaled box23_rounded box23_result)

lemma box41_coverage:
  "coveragePercentage (calculateRoomCoverage [box 41 1 True] 10 8)
     = Finite (3602879701896397 / 70368744177664)"
  by (simp only: coverage_fields visible_examples footprint_sum_box double_41 double_1
      double_10 double_8 box41_product js_add_zero_left box23_area box41_quotient box41_percent
      box41_scaled box41_rounded box41_result)

lemma rounded_to_error: "\<bar>rounded_to n a - a\<bar> \<le> 1 / 2 / 10 ^ n"
proof -
  let ?x = "a * 10 ^ n"
  have "\<bar>of_int (round ?x) - ?x\<bar> \<le> 1 / 2"
    by (rule of_int_round_abs_le)
  then have "\<bar>of_int (round ?x) - ?x\<bar> / 10 ^ n \<le> 1 / 2 / 10 ^ n"
    by (rule divide_right_mono) simp
  moreover have "rounded_to n a - a = (of_int (round ?x) - ?x) / 10 ^ n"
    by (simp add: rounded_to_def diff_divide_distrib)
  ultimately show ?thesis
    by (simp add: abs_divide)
qed

lemma rounded_examples:
  "rounded_to 1 (23 * 1 / (10 * 8) * 100) = 28.8"
  "rounded_to 1 (41 * 1 / (10 * 8) * 100) = 51.3"
  by (simp_all add: rounded_to_def round_def)



lemma percentage_of_coverage:
  "coveragePercentage (calculateRoomCoverage fs roomWidth roomDepth)
     = percentage_of (footprint_sum (filter visible fs)) roomWidth roomDepth"
  by (simp only: coverage_fields percentage_of_def)

lemma tiny_sum: "footprint_sum (filter visible [box (1 / 256) 1 True]) = Finite (1 / 256)"
  by (simp only: visible_examples footprint_sum_box double_256th double_1 tiny_product
      js_add_zero_left)

lemma tiny_total: "totalFootprint (calculateRoomCoverage [box (1 / 256) 1 True] 1 1) = Finite 0"
proof -
  have "js_div (Finite 0) (Finite 100) = Finite 0"
    by (rule js_zero_div) simp
  then show ?thesis
    by (simp only: coverage_fields tiny_sum tiny_total_scaled tiny_total_rounded)
qed

lemma tiny_coverage:
  "coveragePercentage (calculateRoomCoverage [box (1 / 256) 1 True] 1 1)
     = Finite (3602879701896397 / 9007199254740992)"
  by (simp only: coverage_fields tiny_sum double_1 tiny_area tiny_quotient tiny_percent
      tiny_scaled tiny_rounded tiny_result)

lemma percentage_of_zero: "percentage_of (Finite 0) 1 1 = Finite 0"
proof -
  have a: "js_div (Finite 0) (Finite 1) = Finite 0" by (rule js_zero_div) simp
  have b: "js_mul (Finite 0) (Finite 100) = Finite 0" by (rule js_zero_mul) simp
  have c: "js_mul (Finite 0) (Finite 10) = Finite 0" by (rule js_zero_mul) simp
  have d: "Math_round (Finite 0) = Finite 0" by simp
  have e: "js_div (Finite 0) (Finite 10) = Finite 0" by (rule js_zero_div) simp
  show ?thesis
    by (simp only: percentage_of_def double_1 tiny_area a b c d e)
qed

lemma box2_sum: "footprint_sum (filter visible [box 2 1 True, box 3 1 False]) = Finite 2"
  by (simp only: visible_examples footprint_sum_box double_2 double_1 box2_product
      js_add_zero_left)

lemma box2_scaled_percent:
  "js_mul (js_mul (js_div (Finite 2) (js_mul (to_double 10) (to_double 8))) (Finite 100))
     (Finite 10) = Finite 25"
  by (simp only: double_10 double_8 box23_area box2_quotient box2_percent box2_scaled)



text \<open>
  C3, as stated, fails on the code. One visible item of 23 by 1 in a room of 10 by 8
  covers 28.75 percent exactly, which rounds to 28.8; the double quotient 23 / 80 times 100
  is 28.749999999999996, and the code returns the double 28.7.
\<close>

theorem calculateRoomCoverage_exact_rounding_counterexample:
  "coveragePercentage (calculateRoomCoverage [box 23 1 True] 10 8)
     = Finite (8078331831595827 / 281474976710656)
   \<and> to_double 28.7 = Finite (8078331831595827 / 281474976710656)
   \<and> rounded_to 1 (23 * 1 / (10 * 8) * 100) = 28.8
   \<and> to_double 28.8 = Finite (8106479329266893 / 281474976710656)
   \<and> coveragePercentage (calculateRoomCoverage [box 23 1 True] 10 8)
       \<noteq> to_double (rounded_to 1 (23 * 1 / (10 * 8) * 100))"
proof -
  have "coveragePercentage (calculateRoomCoverage [box 23 1 True] 10 8)
       \<noteq> to_double (rounded_to 1 (23 * 1 / (10 * 8) * 100))"
    by (simp only: box23_coverage rounded_examples double_28_8) simp
  then show ?thesis
    using box23_coverage double_28_7 rounded_examples(1) double_28_8 by simp
qed

text \<open>
  C3, amended. \<open>calculateRoomCoverage\<close> counts and sums the visible items only: the count
  is the number of visible items, and removing the hidden items changes nothing. With S
  the sum of the products width times depth of the visible items, added from left to right
  in double arithmetic, \<open>totalFootprint\<close> is \<open>Math.round(S * 100) / 100\<close> and
  \<open>coveragePercentage\<close> is \<open>Math.round(S / (roomWidth * roomDepth) * 100 * 10) / 10\<close>, every
  operation in double arithmetic. When the scaled value is a finite number \<open>p \<ge> 0\<close>, the
  result is the double nearest to the decimal \<open>n / 100\<close> (or \<open>n / 10\<close>) where \<open>n\<close> is the
  integer nearest to \<open>p\<close>; it is the exact decimal rounding of the exact sum or ratio only up
  to the rounding of the doubles. A list of hidden items gives 0, 0 and 0 when the double
  product of the room dimensions is a positive number, which it is for dimensions from
  \<open>2 powi (- 500)\<close> to \<open>2 powi 500\<close>.
\<close>

theorem calculateRoomCoverage_visible_double:
  "(let vis = filter visible fs;
        S = footprint_sum vis;
        area = js_mul (to_double roomWidth) (to_double roomDepth);
        r = calculateRoomCoverage fs roomWidth roomDepth
    in itemCount r = length vis
     \<and> calculateRoomCoverage vis roomWidth roomDepth = r
     \<and> totalFootprint r = js_div (Math_round (js_mul S (Finite 100))) (Finite 100)
     \<and> coveragePercentage r
         = js_div (Math_round (js_mul (js_mul (js_div S area) (Finite 100)) (Finite 10)))
             (Finite 10)
     \<and> (\<forall>p. 0 \<le> p \<and> js_mul S (Finite 100) = Finite p
            \<longrightarrow> totalFootprint r = to_double (of_int (round p) / 100))
     \<and> (\<forall>p. 0 \<le> p \<and> js_mul (js_mul (js_div S area) (Finite 100)) (Finite 10) = Finite p
            \<longrightarrow> coveragePercentage r = to_double (of_int (round p) / 10))
     \<and> ((\<forall>f \<in> set fs. \<not> visible f) \<and> (\<exists>a. area = Finite a \<and> 0 < a)
            \<longrightarrow> r = \<lparr>totalFootprint = Finite 0, coveragePercentage = Finite 0, itemCount = 0\<rparr>)
     \<and> (2 powi (- 500) \<le> roomWidth \<and> roomWidth \<le> 2 powi 500 \<and>
        2 powi (- 500) \<le> roomDepth \<and> roomDepth \<le> 2 powi 500
            \<longrightarrow> (\<exists>a. area = Finite a \<and> 0 < a)))
   \<and> footprint_sum [] = Finite 0
   \<and> (\<forall>xs f. footprint_sum (xs @ [f])
          = js_add (footprint_sum xs)
              (js_mul (to_double (width (dimensions f))) (to_double (depth (dimensions f)))))"
proof -
  define vis where "vis = filter visible fs"
  define S where "S = footprint_sum vis"
  define area where "area = js_mul (to_double roomWidth) (to_double roomDepth)"
  define r where "r = calculateRoomCoverage fs roomWidth roomDepth"
  have 1: "itemCount r = length vis"
    by (simp only: r_def vis_def coverage_fields)
  have 2: "calculateRoomCoverage vis roomWidth roomDepth = r"
    by (simp only: r_def vis_def hidden_ignored)
  have 3: "totalFootprint r = js_div (Math_round (js_mul S (Finite 100))) (Finite 100)"
    by (simp only: r_def S_def vis_def coverage_fields)
  have 4: "coveragePercentage r
         = js_div (Math_round (js_mul (js_mul (js_div S area) (Finite 100)) (Finite 10)))
             (Finite 10)"
    by (simp only: r_def S_def vis_def area_def coverage_fields)
  have 5: "\<forall>p. 0 \<le> p \<and> js_mul S (Finite 100) = Finite p
            \<longrightarrow> totalFootprint r = to_double (of_int (round p) / 100)"
  proof (intro allI impI)
    fix p :: real
    assume a: "0 \<le> p \<and> js_mul S (Finite 100) = Finite p"
    then have "js_div (Math_round (Finite p)) (Finite 100) = to_double (of_int (round p) / 100)"
      by (intro js_round_places) simp_all
    with a show "totalFootprint r = to_double (of_int (round p) / 100)"
      by (simp only: 3)
  qed
  have 6: "\<forall>p. 0 \<le> p \<and> js_mul (js_mul (js_div S area) (Finite 100)) (Finite 10) = Finite p
            \<longrightarrow> coveragePercentage r = to_double (of_int (round p) / 10)"
  proof (intro allI impI)
    fix p :: real
    assume a: "0 \<le> p \<and> js_mul (js_mul (js_div S area) (Finite 100)) (Finite 10) = Finite p"
    then have "js_div (Math_round (Finite p)) (Finite 10) = to_double (of_int (round p) / 10)"
      by (intro js_round_places) simp_all
    with a show "coveragePercentage r = to_double (of_int (round p) / 10)"
      by (simp only: 4)
  qed
  have 7: "(\<forall>f \<in> set fs. \<not> visible f) \<and> (\<exists>a. area = Finite a \<and> 0 < a)
            \<longrightarrow> r = \<lparr>totalFootprint = Finite 0, coveragePercentage = Finite 0, itemCount = 0\<rparr>"
    unfolding r_def area_def using all_hidden_zero by blast
  have 8: "2 powi (- 500) \<le> roomWidth \<and> roomWidth \<le> 2 powi 500 \<and>
        2 powi (- 500) \<le> roomDepth \<and> roomDepth \<le> 2 powi 500
            \<longrightarrow> (\<exists>a. area = Finite a \<and> 0 < a)"
    unfolding area_def using area_in_range by blast
  have 9: "\<forall>xs f. footprint_sum (xs @ [f])
          = js_add (footprint_sum xs)
              (js_mul (to_double (width (dimensions f))) (to_double (depth (dimensions f))))"
    by (simp only: footprint_sum_snoc) simp
  from 1 2 3 4 5 6 7 8 9 footprint_sum_Nil show ?thesis
    unfolding Let_def vis_def [symmetric] S_def [symmetric] area_def [symmetric]
      r_def [symmetric]
    by blast
qed

theorem calculateRoomCoverage_visible_double_witness:
  "totalFootprint (calculateRoomCoverage [box 2 1 True, box 3 1 False] 10 8) = Finite 2
   \<and> coveragePercentage (calculateRoomCoverage [box 2 1 True, box 3 1 False] 10 8)
       = Finite (5 / 2)
   \<and> itemCount (calculateRoomCoverage [box 2 1 True, box 3 1 False] 10 8) = 1
   \<and> \<not> visible (box 3 1 False)
   \<and> js_mul (to_double 10) (to_double 8) = Finite 80
   \<and> calculateRoomCoverage [box 3 1 False] 10 8
        = \<lparr>totalFootprint = Finite 0, coveragePercentage = Finite 0, itemCount = 0\<rparr>
   \<and> (2::real) powi (- 500) \<le> 10 \<and> (10::real) \<le> 2 powi 500
   \<and> (2::real) powi (- 500) \<le> 8 \<and> (8::real) \<le> 2 powi 500
   \<and> (\<exists>a. js_mul (to_double 10) (to_double 8) = Finite a \<and> 0 < a)"
proof -
  let ?fs = "[box 2 1 True, box 3 1 False]"
  note w = calculateRoomCoverage_visible_double [of ?fs 10 8, unfolded Let_def, THEN conjunct1]
  note w1 = w [THEN conjunct1]
  note w5 = w [THEN conjunct2, THEN conjunct2, THEN conjunct2, THEN conjunct2, THEN conjunct1,
      rule_format]
  note w6 = w [THEN conjunct2, THEN conjunct2, THEN conjunct2, THEN conjunct2, THEN conjunct2,
      THEN conjunct1, rule_format]
  note h7 = calculateRoomCoverage_visible_double
      [of "[box 3 1 False]" 10 8, unfolded Let_def, THEN conjunct1,
      THEN conjunct2, THEN conjunct2, THEN conjunct2, THEN conjunct2, THEN conjunct2,
      THEN conjunct2, THEN conjunct1, rule_format]
  note w8 = calculateRoomCoverage_visible_double [of ?fs 10 8, unfolded Let_def, THEN conjunct1,
      THEN conjunct2, THEN conjunct2, THEN conjunct2, THEN conjunct2, THEN conjunct2,
      THEN conjunct2, THEN conjunct2, rule_format]
  have lo: "(2::real) powi (- 500) \<le> 1"
    using power_int_increasing [of "- 500" 0 "2::real"] by simp
  have hi: "(16::real) \<le> 2 powi 500"
    using power_int_increasing [of 4 500 "2::real"] by simp
  have rng: "(2::real) powi (- 500) \<le> 10 \<and> (10::real) \<le> 2 powi 500
   \<and> (2::real) powi (- 500) \<le> 8 \<and> (8::real) \<le> 2 powi 500"
    using lo hi by linarith
  have ex: "\<exists>a. js_mul (to_double 10) (to_double 8) = Finite a \<and> 0 < a"
    by (rule w8 [OF rng])
  have area: "js_mul (to_double 10) (to_double 8) = Finite 80"
    by (simp only: double_10 double_8 box23_area)
  have p1: "0 \<le> (200::real)
      \<and> js_mul (footprint_sum (filter visible ?fs)) (Finite 100) = Finite 200"
    by (simp only: box2_sum box2_total_scaled) simp
  have "totalFootprint (calculateRoomCoverage ?fs 10 8) = to_double (of_int (round (200::real)) / 100)"
    by (rule w5 [OF p1])
  then have t: "totalFootprint (calculateRoomCoverage ?fs 10 8) = Finite 2"
    by (simp add: double_2)
  have p2: "0 \<le> (25::real)
      \<and> js_mul (js_mul (js_div (footprint_sum (filter visible ?fs))
            (js_mul (to_double 10) (to_double 8))) (Finite 100)) (Finite 10) = Finite 25"
    by (simp only: box2_sum box2_scaled_percent) simp
  have "coveragePercentage (calculateRoomCoverage ?fs 10 8) = to_double (of_int (round (25::real)) / 10)"
    by (rule w6 [OF p2])
  moreover have "to_double (25 / 10) = Finite (5 / 2)"
    using box2_result by (simp add: js_div_finite)
  ultimately have c: "coveragePercentage (calculateRoomCoverage ?fs 10 8) = Finite (5 / 2)"
    by simp
  have n: "itemCount (calculateRoomCoverage ?fs 10 8) = 1"
    using w1 by (simp only: visible_examples) simp
  have hid: "\<not> visible (box 3 1 False)"
    by (simp add: box_fields)
  have p7: "(\<forall>f \<in> set [box 3 1 False]. \<not> visible f)
      \<and> (\<exists>a. js_mul (to_double 10) (to_double 8) = Finite a \<and> 0 < a)"
    using hid by (simp add: area)
  have h: "calculateRoomCoverage [box 3 1 False] 10 8
        = \<lparr>totalFootprint = Finite 0, coveragePercentage = Finite 0, itemCount = 0\<rparr>"
    by (rule h7 [OF p7])
  from t c n hid area h rng ex show ?thesis
    by blast
qed




text \<open>
  C10, as stated, fails on the code in its formula. One visible item of 41 by 1 in a room
  of 10 by 8 covers 51.25 percent exactly, which rounds to 51.3; the code returns the
  double 51.2.
\<close>

theorem coveragePercentage_exact_rounding_counterexample:
  "coveragePercentage (calculateRoomCoverage [box 41 1 True] 10 8)
     = Finite (3602879701896397 / 70368744177664)
   \<and> to_double 51.2 = Finite (3602879701896397 / 70368744177664)
   \<and> rounded_to 1 (41 * 1 / (10 * 8) * 100) = 51.3
   \<and> to_double 51.3 = Finite (3609916576314163 / 70368744177664)
   \<and> coveragePercentage (calculateRoomCoverage [box 41 1 True] 10 8)
       \<noteq> to_double (rounded_to 1 (41 * 1 / (10 * 8) * 100))"
proof -
  have "coveragePercentage (calculateRoomCoverage [box 41 1 True] 10 8)
       \<noteq> to_double (rounded_to 1 (41 * 1 / (10 * 8) * 100))"
    by (simp only: box41_coverage rounded_examples double_51_3) simp
  then show ?thesis
    using box41_coverage double_51_2 rounded_examples(2) double_51_3 by simp
qed

text \<open>
  C10, amended. \<open>coveragePercentage\<close> is computed from the footprint sum before it is
  rounded, not from the reported \<open>totalFootprint\<close>: it is \<open>percentage_of\<close> the double sum
  over the visible items, every operation in double arithmetic, and the double nearest to
  \<open>n / 10\<close> for the integer \<open>n\<close> nearest to the scaled double value. The two computations
  differ for an item of 1/256 by 1 in a room of 1 by 1: the reported footprint is 0, from
  which the percentage would be 0, and the reported percentage is the double 0.4.
\<close>

theorem coveragePercentage_from_unrounded_sum:
  "(let S = footprint_sum (filter visible fs);
        r = calculateRoomCoverage fs roomWidth roomDepth
    in coveragePercentage r = percentage_of S roomWidth roomDepth
     \<and> (\<forall>p. 0 \<le> p \<and>
            js_mul (js_mul (js_div S (js_mul (to_double roomWidth) (to_double roomDepth)))
              (Finite 100)) (Finite 10) = Finite p
            \<longrightarrow> coveragePercentage r = to_double (of_int (round p) / 10)))
   \<and> (let r = calculateRoomCoverage [box (1 / 256) 1 True] 1 1
      in footprint_sum (filter visible [box (1 / 256) 1 True]) = Finite (1 / 256)
       \<and> totalFootprint r = Finite 0
       \<and> coveragePercentage r = Finite (3602879701896397 / 9007199254740992)
       \<and> to_double 0.4 = Finite (3602879701896397 / 9007199254740992)
       \<and> percentage_of (totalFootprint r) 1 1 = Finite 0
       \<and> coveragePercentage r \<noteq> percentage_of (totalFootprint r) 1 1)"
proof -
  define S where "S = footprint_sum (filter visible fs)"
  define r where "r = calculateRoomCoverage fs roomWidth roomDepth"
  define r0 where "r0 = calculateRoomCoverage [box (1 / 256) 1 True] 1 1"
  have 1: "coveragePercentage r = percentage_of S roomWidth roomDepth"
    by (simp only: r_def S_def percentage_of_coverage)
  have 2: "\<forall>p. 0 \<le> p \<and>
            js_mul (js_mul (js_div S (js_mul (to_double roomWidth) (to_double roomDepth)))
              (Finite 100)) (Finite 10) = Finite p
            \<longrightarrow> coveragePercentage r = to_double (of_int (round p) / 10)"
  proof (intro allI impI)
    fix p :: real
    assume a: "0 \<le> p \<and>
            js_mul (js_mul (js_div S (js_mul (to_double roomWidth) (to_double roomDepth)))
              (Finite 100)) (Finite 10) = Finite p"
    then have "js_div (Math_round (Finite p)) (Finite 10) = to_double (of_int (round p) / 10)"
      by (intro js_round_places) simp_all
    with a show "coveragePercentage r = to_double (of_int (round p) / 10)"
      by (simp only: 1 percentage_of_def)
  qed
  have t: "totalFootprint r0 = Finite 0"
    by (simp only: r0_def tiny_total)
  have c: "coveragePercentage r0 = Finite (3602879701896397 / 9007199254740992)"
    by (simp only: r0_def tiny_coverage)
  have z: "percentage_of (totalFootprint r0) 1 1 = Finite 0"
    by (simp only: t percentage_of_zero)
  have n: "coveragePercentage r0 \<noteq> percentage_of (totalFootprint r0) 1 1"
    by (simp only: c z) simp
  from 1 2 tiny_sum t c double_0_4 z n show ?thesis
    unfolding Let_def S_def [symmetric] r_def [symmetric] r0_def [symmetric]
    by blast
qed

theorem coveragePercentage_from_unrounded_sum_witness:
  "(0::real) \<le> 25
   \<and> js_mul (js_mul (js_div (footprint_sum (filter visible [box 2 1 True, box 3 1 False]))
        (js_mul (to_double 10) (to_double 8))) (Finite 100)) (Finite 10) = Finite 25
   \<and> coveragePercentage (calculateRoomCoverage [box 2 1 True, box 3 1 False] 10 8)
       = Finite (5 / 2)"
proof -
  let ?fs = "[box 2 1 True, box 3 1 False]"
  note w2 = coveragePercentage_from_unrounded_sum
      [of ?fs 10 8, unfolded Let_def, THEN conjunct1, THEN conjunct2, rule_format]
  have p2: "0 \<le> (25::real)
      \<and> js_mul (js_mul (js_div (footprint_sum (filter visible ?fs))
            (js_mul (to_double 10) (to_double 8))) (Finite 100)) (Finite 10) = Finite 25"
    by (simp only: box2_sum box2_scaled_percent) simp
  have "coveragePercentage (calculateRoomCoverage ?fs 10 8)
          = to_double (of_int (round (25::real)) / 10)"
    by (rule w2 [OF p2])
  moreover have "to_double (25 / 10) = Finite (5 / 2)"
    using box2_result by (simp add: js_div_finite)
  ultimately have "coveragePercentage (calculateRoomCoverage ?fs 10 8) = Finite (5 / 2)"
    by simp
  with p2 show ?thesis by simp
qed

end
